theory Spec2Isabelle
  imports Complex_Main
begin

section \<open>Python values used by the quiz application\<close>

text \<open>
  Python strings are modelled as lists of 8-bit characters, read as the code points
  0..255 (Latin-1).  Code points above 255 are outside the model.  Every primitive below
  follows the behaviour of the corresponding \<^verbatim>\<open>str\<close> method on that range.
\<close>

datatype py_error =
    IndexError | KeyError | TypeError | ValueError | AttributeError | ZeroDivisionError
  | FileNotFoundError | JSONDecodeError

text \<open>\<^verbatim>\<open>str.isspace\<close> on one character: the whitespace code points below 256.\<close>

definition isspace :: "char \<Rightarrow> bool" where
  "isspace c \<longleftrightarrow> c \<in> set [CHR 0x09, CHR 0x0A, CHR 0x0B, CHR 0x0C, CHR 0x0D,
                           CHR 0x1C, CHR 0x1D, CHR 0x1E, CHR 0x1F, CHR 0x20,
                           CHR 0x85, CHR 0xA0]"

text \<open>\<^verbatim>\<open>str.lower\<close> and \<^verbatim>\<open>str.upper\<close> on one character.  The three Latin-1 letters
  whose upper case is not a single Latin-1 character (0xB5, 0xDF, 0xFF) are left unchanged
  by \<open>upper_char\<close>; the program only ever tests an upper-cased text for membership in
  \<^verbatim>\<open>'ABCD'\<close>, which is false for them either way.\<close>

definition lower_char :: "char \<Rightarrow> char" where
  "lower_char c =
     (let n = (of_char c :: nat)
      in if (65 \<le> n \<and> n \<le> 90) \<or> (192 \<le> n \<and> n \<le> 222 \<and> n \<noteq> 215)
         then char_of (n + 32) else c)"

definition upper_char :: "char \<Rightarrow> char" where
  "upper_char c =
     (let n = (of_char c :: nat)
      in if (97 \<le> n \<and> n \<le> 122) \<or> (224 \<le> n \<and> n \<le> 254 \<and> n \<noteq> 247)
         then char_of (n - 32) else c)"

definition lower :: "string \<Rightarrow> string" where
  "lower s = map lower_char s"

definition upper :: "string \<Rightarrow> string" where
  "upper s = map upper_char s"

text \<open>\<^verbatim>\<open>str.strip()\<close>: drop leading and trailing whitespace.\<close>

definition strip :: "string \<Rightarrow> string" where
  "strip s = rev (dropWhile isspace (rev (dropWhile isspace s)))"

text \<open>\<^verbatim>\<open>str.split()\<close> without argument: the maximal runs of non-whitespace characters.
  The second argument is the word being read.\<close>

fun split_words :: "string \<Rightarrow> string \<Rightarrow> string list" where
  "split_words [] w = (if w = [] then [] else [w])"
| "split_words (c # cs) w =
     (if isspace c then (if w = [] then split_words cs [] else w # split_words cs [])
      else split_words cs (w @ [c]))"

definition split_ws :: "string \<Rightarrow> string list" where
  "split_ws s = split_words s []"

text \<open>\<^verbatim>\<open>str.split(sep)\<close> for a one-character separator: empty pieces are kept, and the
  empty string splits into one empty piece.\<close>

fun split_on :: "char \<Rightarrow> string \<Rightarrow> string list" where
  "split_on sep [] = [[]]"
| "split_on sep (c # cs) =
     (if c = sep then [] # split_on sep cs
      else (case split_on sep cs of
              [] \<Rightarrow> [[c]]
            | w # ws \<Rightarrow> (c # w) # ws))"

text \<open>\<^verbatim>\<open>sep.join(parts)\<close>.\<close>

fun join :: "string \<Rightarrow> string list \<Rightarrow> string" where
  "join sep [] = []"
| "join sep [x] = x"
| "join sep (x # y # ys) = x @ sep @ join sep (y # ys)"

text \<open>\<^verbatim>\<open>a in b\<close> for two strings: \<open>a\<close> occurs in \<open>b\<close> as a contiguous piece.\<close>

fun str_in :: "string \<Rightarrow> string \<Rightarrow> bool" where
  "str_in a [] = (a = [])"
| "str_in a (y # ys) = (take (length a) (y # ys) = a \<or> str_in a ys)"

text \<open>\<^verbatim>\<open>ord(s)\<close>: defined on one-character strings only.\<close>

definition ord :: "string \<Rightarrow> py_error + int" where
  "ord s = (case s of [c] \<Rightarrow> Inr (of_char c) | _ \<Rightarrow> Inl TypeError)"

text \<open>Truth value of an optional list (\<^verbatim>\<open>None\<close> and \<^verbatim>\<open>[]\<close> are false), its length
  and its subscript.  Negative subscripts count from the end, as in Python.\<close>

definition truthy :: "'a list option \<Rightarrow> bool" where
  "truthy v = (case v of None \<Rightarrow> False | Some xs \<Rightarrow> xs \<noteq> [])"

definition len :: "'a list option \<Rightarrow> py_error + int" where
  "len v = (case v of None \<Rightarrow> Inl TypeError | Some xs \<Rightarrow> Inr (int (length xs)))"

definition subscript :: "'a list option \<Rightarrow> int \<Rightarrow> py_error + 'a" where
  "subscript v i =
     (case v of
        None \<Rightarrow> Inl TypeError
      | Some xs \<Rightarrow>
          if 0 \<le> i \<and> i < int (length xs) then Inr (xs ! nat i)
          else if - int (length xs) \<le> i \<and> i < 0 then Inr (xs ! nat (int (length xs) + i))
          else Inl IndexError)"

text \<open>\<^verbatim>\<open>a / b\<close> on integers.  The quotient is the exact rational; the rounding of the
  binary floating-point result is not modelled.\<close>

definition truediv :: "int \<Rightarrow> int \<Rightarrow> py_error + real" where
  "truediv a b = (if b = 0 then Inl ZeroDivisionError else Inr (real_of_int a / real_of_int b))"


section \<open>Answer verification (\<^verbatim>\<open>quiz_manager.py\<close>)\<close>

definition check_single_choice_answer ::
  "string \<Rightarrow> string \<Rightarrow> string list option \<Rightarrow> py_error + bool" where
  "check_single_choice_answer user_answer correct_answer options =
     (let user_normalized = lower (strip user_answer);
          direct = Inr (user_normalized = lower (strip correct_answer))
      in if length user_normalized = 1 \<and> str_in (upper user_normalized) ''ABCD'' then
           (case ord (upper user_normalized) of
              Inl e \<Rightarrow> Inl e
            | Inr o1 \<Rightarrow>
               (case ord ''A'' of
                  Inl e \<Rightarrow> Inl e
                | Inr o2 \<Rightarrow>
                   (let letter_index = o1 - o2
                    in case len options of
                         Inl e \<Rightarrow> Inl e
                       | Inr n \<Rightarrow>
                           if 0 \<le> letter_index \<and> letter_index < n then
                             (case subscript options letter_index of
                                Inl e \<Rightarrow> Inl e
                              | Inr user_answer_text \<Rightarrow>
                                  Inr (lower (strip user_answer_text) = lower (strip correct_answer)))
                           else direct)))
         else direct)"

text \<open>The loop \<^verbatim>\<open>for letter in user_letters: ...\<close> of the multiple-choice check; the last
  argument is the list \<^verbatim>\<open>user_answers\<close> built so far.\<close>

fun collect_letters ::
  "string list option \<Rightarrow> char list \<Rightarrow> string list \<Rightarrow> py_error + string list" where
  "collect_letters options [] user_answers = Inr user_answers"
| "collect_letters options (letter # rest) user_answers =
     (case ord [letter] of
        Inl e \<Rightarrow> Inl e
      | Inr o1 \<Rightarrow>
         (case ord ''A'' of
            Inl e \<Rightarrow> Inl e
          | Inr o2 \<Rightarrow>
             (let letter_index = o1 - o2
              in case len options of
                   Inl e \<Rightarrow> Inl e
                 | Inr n \<Rightarrow>
                     if 0 \<le> letter_index \<and> letter_index < n then
                       (case subscript options letter_index of
                          Inl e \<Rightarrow> Inl e
                        | Inr opt \<Rightarrow>
                            collect_letters options rest (user_answers @ [lower (strip opt)]))
                     else collect_letters options rest user_answers)))"

definition check_multiple_choice_answer ::
  "string \<Rightarrow> string list \<Rightarrow> string list option \<Rightarrow> py_error + bool" where
  "check_multiple_choice_answer user_answer correct_answers options =
     (let user_normalized = lower (strip user_answer)
      in if list_all (\<lambda>c. c \<in> set ''abcd, '') user_normalized then
           (let user_letters =
                  map upper_char (filter (\<lambda>c. upper_char c \<in> set ''ABCD'') user_normalized)
            in case (if truthy options then collect_letters options user_letters []
                     else Inr []) of
                 Inl e \<Rightarrow> Inl e
               | Inr user_answers \<Rightarrow>
                   (let correct_normalized = map (\<lambda>ans. lower (strip ans)) correct_answers
                    in Inr (set user_answers = set correct_normalized)))
         else
           (let user_parts = map (\<lambda>part. lower (strip part)) (split_on CHR '','' user_answer);
                correct_normalized = map (\<lambda>ans. lower (strip ans)) correct_answers
            in Inr (set user_parts = set correct_normalized)))"

definition check_text_answer :: "string \<Rightarrow> string \<Rightarrow> py_error + bool" where
  "check_text_answer user_answer correct_answer =
     (let user_normalized = lower (strip user_answer);
          correct_normalized = lower (strip correct_answer);
          is_exact_match = (user_normalized = correct_normalized)
      in if length correct_normalized > 10 then
           (let correct_words = set (split_ws correct_normalized);
                user_words = set (split_ws user_normalized)
            in if card correct_words > 0 then
                 (case truediv (int (card (correct_words \<inter> user_words)))
                               (int (card correct_words)) of
                    Inl e \<Rightarrow> Inl e
                  | Inr match_ratio \<Rightarrow> Inr (is_exact_match \<or> match_ratio \<ge> 7 / 10))
               else Inr is_exact_match)
         else Inr is_exact_match)"

text \<open>The verdict computed by \<^verbatim>\<open>check_answer\<close>, before it is recorded.\<close>

definition check_answer_verdict ::
  "string \<Rightarrow> string \<Rightarrow> string \<Rightarrow> string list option \<Rightarrow> string list option
   \<Rightarrow> py_error + bool" where
  "check_answer_verdict user_answer correct_answer question_type options correct_answers =
     (if question_type = ''single_choice'' \<and> truthy options then
        check_single_choice_answer user_answer correct_answer options
      else if question_type = ''multiple_choice'' \<and> truthy correct_answers then
        (case correct_answers of
           None \<Rightarrow> Inl TypeError
         | Some cas \<Rightarrow> check_multiple_choice_answer user_answer cas options)
      else check_text_answer user_answer correct_answer)"


subsection \<open>The vocabulary of the verification rules\<close>

text \<open>
  The rules of verification are stated with the following notions: the normalised form of
  a text (trimmed, lower case), the tokens of a text (the whitespace-separated words of its
  normalised form), and the coverage of a canonical answer by a submission.
\<close>

definition normalise :: "string \<Rightarrow> string" where
  "normalise s = lower (strip s)"

definition tokens :: "string \<Rightarrow> string set" where
  "tokens s = set (split_ws (normalise s))"

definition coverage :: "string \<Rightarrow> string \<Rightarrow> real" where
  "coverage canonical submission =
     real (card (tokens canonical \<inter> tokens submission)) / real (card (tokens canonical))"

text \<open>
  For multiple choice: a submission is a letter submission when its normalised form
  consists of the letters a to d, commas and blanks only.  \<open>letter_answers\<close> maps every
  letter of the submission that has an option to the normalised text of that option;
  letters without an option are dropped.  \<open>segment_answers\<close> are the normalised
  comma-separated segments of the submission.
\<close>

definition letter_offset :: "char \<Rightarrow> nat" where
  "letter_offset c = of_char c - of_char CHR ''a''"

definition letter_submission :: "string \<Rightarrow> bool" where
  "letter_submission u \<longleftrightarrow> (\<forall>c \<in> set (normalise u). c \<in> set ''abcd, '')"

definition letter_answers :: "string list \<Rightarrow> string \<Rightarrow> string set" where
  "letter_answers os u =
     set (map (\<lambda>c. normalise (os ! letter_offset c))
              (filter (\<lambda>c. c \<in> set ''abcd'' \<and> letter_offset c < length os) (normalise u)))"

definition segment_answers :: "string \<Rightarrow> string set" where
  "segment_answers u = set (map normalise (split_on CHR '','' u))"

definition option_list :: "string list option \<Rightarrow> string list" where
  "option_list options = (case options of None \<Rightarrow> [] | Some os \<Rightarrow> os)"

text \<open>
  The rule for multiple choice with the letter branch open to every whitespace character
  in place of the blank alone.
\<close>

definition letter_submission_ws :: "string \<Rightarrow> bool" where
  "letter_submission_ws u \<longleftrightarrow>
     (\<forall>c \<in> set (normalise u). c \<in> set ''abcd,'' \<or> isspace c)"

definition multiple_choice_rule_ws :: "string \<Rightarrow> string list \<Rightarrow> string list \<Rightarrow> bool" where
  "multiple_choice_rule_ws u cas os =
     (if letter_submission_ws u then letter_answers os u = set (map normalise cas)
      else segment_answers u = set (map normalise cas))"

definition multiple_choice_rule :: "string \<Rightarrow> string list \<Rightarrow> string list \<Rightarrow> bool" where
  "multiple_choice_rule u cas os =
     (if letter_submission u then letter_answers os u = set (map normalise cas)
      else segment_answers u = set (map normalise cas))"

section \<open>The review store (\<^verbatim>\<open>database.py\<close>)\<close>

text \<open>
  The three SQLite tables are modelled by their rows.  A \<^verbatim>\<open>DATETIME\<close> value is a point
  in time measured in days (the program stores ISO-8601 texts and compares them as texts,
  which orders them by time); \<^verbatim>\<open>timedelta(days=n)\<close> adds \<open>n\<close>.  The clock is passed in
  as the argument \<open>now\<close>.  \<^verbatim>\<open>REAL\<close> columns hold exact real numbers: the rounding of
  binary floating point is not modelled, nor are the upper bounds of SQLite integers and
  of the calendar.  The JSON text kept in the columns \<^verbatim>\<open>options\<close> and
  \<^verbatim>\<open>correct_answers\<close> is represented by the list it encodes, \<^verbatim>\<open>NULL\<close> by \<open>None\<close>.
\<close>

type_synonym datetime = real

record question_row =
  q_id :: nat
  q_quiz_file :: string
  q_question_id :: string
  q_question_text :: string
  q_correct_answer :: string
  q_question_type :: string
  q_options :: "string list option"
  q_correct_answers :: "string list option"

record user_answer_row =
  ua_id :: nat
  ua_question_id :: nat
  ua_user_answer :: string
  ua_is_correct :: bool
  ua_timestamp :: datetime
  ua_response_time :: "real option"

record srs_row =
  difficulty :: real
  interval_days :: int
  repetitions :: int
  next_review :: "datetime option"
  ease_factor :: real
  last_review :: "datetime option"

text \<open>
  \<open>questions_seq\<close> is the \<^verbatim>\<open>sqlite_sequence\<close> entry of the table \<^verbatim>\<open>questions\<close>: its
  key is declared \<^verbatim>\<open>INTEGER PRIMARY KEY AUTOINCREMENT\<close>, so a row inserted without a key
  gets a key one larger than every key the table has ever held.  \<^verbatim>\<open>srs_stats\<close> has
  \<^verbatim>\<open>question_id\<close> as its primary key and is a map from that key to the rest of the row.
  Foreign keys are declared but not enforced (the connection never turns them on).
\<close>

record database =
  questions :: "question_row list"
  questions_seq :: nat
  user_answers :: "user_answer_row list"
  srs_stats :: "nat \<rightharpoonup> srs_row"

definition init_database :: database where
  "init_database = \<lparr>questions = [], questions_seq = 0, user_answers = [], srs_stats = Map.empty\<rparr>"

text \<open>The row \<^verbatim>\<open>INSERT ... INTO srs_stats (question_id, next_review)\<close> creates: the other
  columns take their declared defaults.\<close>

definition default_srs_row :: "datetime \<Rightarrow> srs_row" where
  "default_srs_row now =
     \<lparr>difficulty = 5 / 2, interval_days = 1, repetitions = 0, next_review = Some now,
      ease_factor = 5 / 2, last_review = None\<rparr>"

definition get_question_db_id :: "database \<Rightarrow> string \<Rightarrow> string \<Rightarrow> nat option" where
  "get_question_db_id db quiz_file question_id =
     (case filter (\<lambda>r. q_quiz_file r = quiz_file \<and> q_question_id r = question_id) (questions db) of
        [] \<Rightarrow> None
      | r # _ \<Rightarrow> Some (q_id r))"

text \<open>
  \<^verbatim>\<open>add_question\<close>.  \<^verbatim>\<open>INSERT OR REPLACE\<close> deletes the row that holds the same
  \<^verbatim>\<open>(quiz_file, question_id)\<close> pair, if there is one, and inserts the new row under a
  fresh key.  \<^verbatim>\<open>cursor.lastrowid\<close> is that key; it is never 0, so the alternative
  \<^verbatim>\<open>or self.get_question_db_id(...)\<close> is never evaluated.  \<^verbatim>\<open>INSERT OR IGNORE\<close> adds
  the default \<^verbatim>\<open>srs_stats\<close> row unless the key is already there.
\<close>

definition add_question ::
  "database \<Rightarrow> datetime \<Rightarrow> string \<Rightarrow> string \<Rightarrow> string \<Rightarrow> string \<Rightarrow> string
   \<Rightarrow> string list option \<Rightarrow> string list option \<Rightarrow> nat \<times> database" where
  "add_question db now quiz_file question_id question_text correct_answer question_type
     options correct_answers =
     (let options_json = (if truthy options then options else None);
          correct_answers_json = (if truthy correct_answers then correct_answers else None);
          lastrowid = questions_seq db + 1;
          new_row = \<lparr>q_id = lastrowid, q_quiz_file = quiz_file, q_question_id = question_id,
                     q_question_text = question_text, q_correct_answer = correct_answer,
                     q_question_type = question_type, q_options = options_json,
                     q_correct_answers = correct_answers_json\<rparr>;
          kept = filter (\<lambda>r. \<not> (q_quiz_file r = quiz_file \<and> q_question_id r = question_id))
                        (questions db);
          question_db_id = lastrowid;
          srs' = (case srs_stats db question_db_id of
                    None \<Rightarrow> (srs_stats db)(question_db_id \<mapsto> default_srs_row now)
                  | Some _ \<Rightarrow> srs_stats db)
      in (question_db_id,
          db\<lparr>questions := kept @ [new_row], questions_seq := lastrowid, srs_stats := srs'\<rparr>))"

text \<open>\<^verbatim>\<open>int(x)\<close> on a float: truncation towards zero.\<close>

definition py_int :: "real \<Rightarrow> int" where
  "py_int x = (if 0 \<le> x then \<lfloor>x\<rfloor> else \<lceil>x\<rceil>)"

definition update_srs_stats :: "database \<Rightarrow> datetime \<Rightarrow> nat \<Rightarrow> bool \<Rightarrow> database" where
  "update_srs_stats db now question_id is_correct =
     (case srs_stats db question_id of
        None \<Rightarrow> db
      | Some result \<Rightarrow>
          (let new_interval =
                 (if is_correct then
                    (if repetitions result = 0 then 1
                     else if repetitions result = 1 then 6
                     else py_int (real_of_int (interval_days result) * ease_factor result))
                  else 1);
               new_repetitions = (if is_correct then repetitions result + 1 else 0);
               new_ease =
                 (if is_correct then
                    max (13 / 10)
                        (ease_factor result
                         + (1 / 10 - (3 - difficulty result)
                                     * (8 / 100 + (3 - difficulty result) * (2 / 100))))
                  else max (13 / 10) (ease_factor result - 2 / 10));
               new_next_review = now + real_of_int new_interval
           in db\<lparr>srs_stats := (srs_stats db)(question_id \<mapsto>
                   \<lparr>difficulty = difficulty result, interval_days = new_interval,
                    repetitions = new_repetitions, next_review = Some new_next_review,
                    ease_factor = new_ease, last_review = Some now\<rparr>)\<rparr>))"

definition record_answer ::
  "database \<Rightarrow> datetime \<Rightarrow> nat \<Rightarrow> string \<Rightarrow> bool \<Rightarrow> real option \<Rightarrow> database" where
  "record_answer db now question_db_id user_answer is_correct response_time =
     (let row = \<lparr>ua_id = length (user_answers db) + 1, ua_question_id = question_db_id,
                 ua_user_answer = user_answer, ua_is_correct = is_correct,
                 ua_timestamp = now, ua_response_time = response_time\<rparr>
      in update_srs_stats (db\<lparr>user_answers := user_answers db @ [row]\<rparr>)
           now question_db_id is_correct)"

text \<open>
  \<^verbatim>\<open>get_questions_for_review\<close>: the left join of \<^verbatim>\<open>questions\<close> with \<^verbatim>\<open>srs_stats\<close>,
  filtered, ordered and cut at \<^verbatim>\<open>limit\<close>.  A question without an \<^verbatim>\<open>srs_stats\<close> row
  joins with \<^verbatim>\<open>NULL\<close>s.  SQLite orders \<^verbatim>\<open>NULL\<close> before every value; rows that tie on
  both keys keep the order of the table here.
\<close>

definition is_due :: "datetime \<Rightarrow> srs_row option \<Rightarrow> bool" where
  "is_due now s =
     (case s of
        None \<Rightarrow> True
      | Some r \<Rightarrow> (case next_review r of None \<Rightarrow> True | Some t \<Rightarrow> t \<le> now))"

definition null_less :: "real option \<Rightarrow> real option \<Rightarrow> bool" where
  "null_less a b =
     (case b of
        None \<Rightarrow> False
      | Some y \<Rightarrow> (case a of None \<Rightarrow> True | Some x \<Rightarrow> x < y))"

definition review_before ::
  "question_row \<times> srs_row option \<Rightarrow> question_row \<times> srs_row option \<Rightarrow> bool" where
  "review_before a b =
     (let na = Option.bind (snd a) next_review; nb = Option.bind (snd b) next_review;
          da = map_option difficulty (snd a); db = map_option difficulty (snd b)
      in null_less na nb \<or> (na = nb \<and> null_less db da))"

fun insert_review ::
  "question_row \<times> srs_row option \<Rightarrow> (question_row \<times> srs_row option) list
   \<Rightarrow> (question_row \<times> srs_row option) list" where
  "insert_review x [] = [x]"
| "insert_review x (y # ys) =
     (if review_before y x then y # insert_review x ys else x # y # ys)"

definition order_reviews ::
  "(question_row \<times> srs_row option) list \<Rightarrow> (question_row \<times> srs_row option) list" where
  "order_reviews rows = foldr insert_review rows []"

definition get_questions_for_review ::
  "database \<Rightarrow> datetime \<Rightarrow> string option \<Rightarrow> nat
   \<Rightarrow> (question_row \<times> srs_row option) list" where
  "get_questions_for_review db now quiz_file limit =
     (let joined = map (\<lambda>q. (q, srs_stats db (q_id q))) (questions db);
          due = filter (\<lambda>(q, s). is_due now s) joined;
          selected = (case quiz_file of
                        None \<Rightarrow> due
                      | Some f \<Rightarrow> if f = [] then due
                                  else filter (\<lambda>(q, s). q_quiz_file q = f) due)
      in take limit (order_reviews selected))"

text \<open>A run of the store: questions are registered and answers recorded, each at its own
  time, starting from the empty database.\<close>

datatype store_op =
    AddQuestion datetime string string string string string
                "string list option" "string list option"
  | RecordAnswer datetime nat string bool "real option"

fun apply_store_op :: "database \<Rightarrow> store_op \<Rightarrow> database" where
  "apply_store_op db (AddQuestion now f i t a ty os cs) = snd (add_question db now f i t a ty os cs)"
| "apply_store_op db (RecordAnswer now k u c rt) = record_answer db now k u c rt"

definition run_store :: "store_op list \<Rightarrow> database" where
  "run_store ops = foldl apply_store_op init_database ops"

text \<open>The answers given to one question, one after the other; each event carries its
  time, the submitted text, the verdict and the response time.\<close>

fun answer_all ::
  "database \<Rightarrow> nat \<Rightarrow> (datetime \<times> string \<times> bool \<times> real option) list \<Rightarrow> database" where
  "answer_all db k [] = db"
| "answer_all db k ((now, u, c, rt) # evs) = answer_all (record_answer db now k u c rt) k evs"

text \<open>
  The invariants of a review state: the repetition count is not negative, the ease factor
  is at least 1.3, and the interval is at least one day once the question has been
  answered correctly.  \<open>store_ok\<close> adds that every key in use is at most the key counter.
  Both hold in every store the operations can build (\<open>store_ok_run\<close> below).
\<close>

definition review_state_ok :: "srs_row \<Rightarrow> bool" where
  "review_state_ok s \<longleftrightarrow>
     0 \<le> repetitions s \<and> 13 / 10 \<le> ease_factor s
     \<and> (0 < repetitions s \<longrightarrow> 1 \<le> interval_days s)"

definition store_ok :: "database \<Rightarrow> bool" where
  "store_ok db \<longleftrightarrow>
     (\<forall>k s. srs_stats db k = Some s \<longrightarrow> k \<le> questions_seq db \<and> review_state_ok s)
     \<and> (\<forall>r \<in> set (questions db). q_id r \<le> questions_seq db)"

text \<open>A store with one review state, used to exercise the theorems on a concrete input.\<close>

definition example_row :: srs_row where
  "example_row = \<lparr>difficulty = 5 / 2, interval_days = 6, repetitions = 2,
                  next_review = Some 0, ease_factor = 13 / 5, last_review = None\<rparr>"

definition example_store :: database where
  "example_store = \<lparr>questions = [], questions_seq = 1, user_answers = [],
                    srs_stats = [1 \<mapsto> example_row]\<rparr>"


section \<open>The quiz manager (\<^verbatim>\<open>quiz_manager.py\<close>)\<close>

text \<open>
  The state of a \<^verbatim>\<open>QuizManager\<close>: its database, the file of the current quiz and the
  counters of \<^verbatim>\<open>session_stats\<close>.  (The list \<^verbatim>\<open>current_questions\<close> is written by
  \<^verbatim>\<open>load_quiz\<close> and read by none of the functions below.)
\<close>

record quiz_manager =
  mgr_db :: database
  current_quiz_file :: "string option"
  questions_asked :: nat
  correct_count :: nat
  start_time :: real

text \<open>The dictionary \<^verbatim>\<open>get_next_question\<close> returns.\<close>

record question_data =
  qd_db_id :: nat
  qd_quiz_file :: string
  qd_question_id :: string
  qd_question :: string
  qd_correct_answer :: string
  qd_next_review :: "datetime option"
  qd_difficulty :: "real option"
  qd_repetitions :: "int option"
  qd_question_type :: string
  qd_options :: "string list option"
  qd_correct_answers :: "string list option"

text \<open>
  \<^verbatim>\<open>get_next_question\<close>.  \<^verbatim>\<open>random.choice\<close> picks the element at a position given
  by the random source; \<open>rnd\<close> stands for its draw.
\<close>

definition get_next_question ::
  "quiz_manager \<Rightarrow> datetime \<Rightarrow> string \<Rightarrow> nat \<Rightarrow> question_data option" where
  "get_next_question m now mode rnd =
     (let questions_data =
            (if mode = ''review'' then
               Some (get_questions_for_review (mgr_db m) now (current_quiz_file m) 1)
             else if mode = ''random'' then
               (let found = get_questions_for_review (mgr_db m) now (current_quiz_file m) 100
                in if found \<noteq> [] then Some [found ! (rnd mod length found)] else Some found)
             else None)
      in case questions_data of
           None \<Rightarrow> None
         | Some [] \<Rightarrow> None
         | Some ((q, s) # _) \<Rightarrow>
             Some \<lparr>qd_db_id = q_id q, qd_quiz_file = q_quiz_file q,
                   qd_question_id = q_question_id q, qd_question = q_question_text q,
                   qd_correct_answer = q_correct_answer q,
                   qd_next_review = Option.bind s next_review,
                   qd_difficulty = map_option difficulty s,
                   qd_repetitions = map_option repetitions s,
                   qd_question_type = (if q_question_type q = [] then ''text''
                                       else q_question_type q),
                   qd_options = (if truthy (q_options q) then q_options q else None),
                   qd_correct_answers = (if truthy (q_correct_answers q)
                                         then q_correct_answers q else None)\<rparr>)"


text \<open>A manager on a store in which the only question, registered at time 0 and answered
  correctly at time 0, is due again at time 1.\<close>

definition learned_store :: database where
  "learned_store =
     run_store [AddQuestion 0 ''quiz.json'' ''q1'' ''2 + 2?'' ''4'' ''text'' None None,
                RecordAnswer 0 1 ''4'' True None]"

definition learned_manager :: quiz_manager where
  "learned_manager = \<lparr>mgr_db = learned_store, current_quiz_file = Some ''quiz.json'',
                       questions_asked = 1, correct_count = 1, start_time = 0\<rparr>"


section \<open>Parsing quiz files (\<^verbatim>\<open>quiz_parser.py\<close>)\<close>

subsection \<open>JSON values and questions\<close>

text \<open>
  The value \<^verbatim>\<open>json.load\<close> returns.  An object is the list of its items in the order of
  the file, with distinct keys.  The fields of a \<^verbatim>\<open>Question\<close> are not checked by the
  program, so each of them holds an arbitrary value; Python's \<^verbatim>\<open>None\<close> is \<open>JNull\<close>.
\<close>

datatype json =
    JNull | JBool bool | JInt int | JFloat real | JStr string
  | JArr "json list" | JObj "(string \<times> json) list"

record Question =
  qn_id :: json
  qn_question :: json
  qn_answer :: json
  qn_options :: json
  qn_category :: json
  qn_difficulty :: json
  qn_question_type :: json
  qn_correct_answers :: json

text \<open>Truth value and length of a Python value, and \<^verbatim>\<open>dict.get\<close> with a default.\<close>

fun py_truth :: "json \<Rightarrow> bool" where
  "py_truth JNull = False"
| "py_truth (JBool b) = b"
| "py_truth (JInt n) = (n \<noteq> 0)"
| "py_truth (JFloat x) = (x \<noteq> 0)"
| "py_truth (JStr s) = (s \<noteq> [])"
| "py_truth (JArr xs) = (xs \<noteq> [])"
| "py_truth (JObj kvs) = (kvs \<noteq> [])"

fun py_len :: "json \<Rightarrow> py_error + nat" where
  "py_len (JStr s) = Inr (length s)"
| "py_len (JArr xs) = Inr (length xs)"
| "py_len (JObj kvs) = Inr (length kvs)"
| "py_len _ = Inl TypeError"

definition dict_get :: "(string \<times> json) list \<Rightarrow> string \<Rightarrow> json \<Rightarrow> json" where
  "dict_get kvs k d = (case map_of kvs k of None \<Rightarrow> d | Some v \<Rightarrow> v)"

text \<open>\<^verbatim>\<open>str(n)\<close> for a natural number: its decimal digits.\<close>

fun str_nat :: "nat \<Rightarrow> string" where
  "str_nat n =
     (if n < 10 then [char_of (48 + n)]
      else str_nat (n div 10) @ [char_of (48 + n mod 10)])"

text \<open>\<^verbatim>\<open>", ".join(answer)\<close> for a list of values: every element has to be a string.\<close>

fun join_values :: "json list \<Rightarrow> py_error + string list" where
  "join_values [] = Inr []"
| "join_values (JStr s # rest) =
     (case join_values rest of Inl e \<Rightarrow> Inl e | Inr ss \<Rightarrow> Inr (s # ss))"
| "join_values (_ # rest) = Inl TypeError"

definition create_question_from_dict :: "json \<Rightarrow> string \<Rightarrow> py_error + Question" where
  "create_question_from_dict item default_id =
     (case item of
        JObj kvs \<Rightarrow>
          (let question_id = dict_get kvs ''id'' (JStr default_id);
               question_text = dict_get kvs ''question'' (dict_get kvs ''q'' (JStr []));
               answer = dict_get kvs ''answer'' (dict_get kvs ''a'' (JStr []));
               opts = dict_get kvs ''options'' (dict_get kvs ''choices'' (JArr []));
               category = dict_get kvs ''category'' (dict_get kvs ''topic'' (JStr []));
               difficulty_value = dict_get kvs ''difficulty'' (JInt 1);
               question_type = dict_get kvs ''type'' (JStr ''text'');
               correct_answers = dict_get kvs ''correct_answers'' JNull;
               typed =
                 (if py_truth opts \<and> question_type = JStr ''text'' then
                    (case (if py_truth correct_answers
                           then (case py_len correct_answers of
                                   Inl e \<Rightarrow> Inl e
                                 | Inr n \<Rightarrow> Inr (1 < n))
                           else Inr False) of
                       Inl e \<Rightarrow> Inl e
                     | Inr True \<Rightarrow> Inr (JStr ''multiple_choice'')
                     | Inr False \<Rightarrow>
                         if py_truth correct_answers \<or> py_truth answer
                         then Inr (JStr ''single_choice'')
                         else Inr question_type)
                  else Inr question_type)
           in case typed of
                Inl e \<Rightarrow> Inl e
              | Inr question_type' \<Rightarrow>
                  (case answer of
                     JArr parts \<Rightarrow>
                       (case join_values parts of
                          Inl e \<Rightarrow> Inl e
                        | Inr ss \<Rightarrow>
                            Inr \<lparr>qn_id = question_id, qn_question = question_text,
                                 qn_answer = JStr (join '', '' ss), qn_options = opts,
                                 qn_category = category, qn_difficulty = difficulty_value,
                                 qn_question_type = JStr ''multiple_choice'',
                                 qn_correct_answers = answer\<rparr>)
                   | _ \<Rightarrow>
                       Inr \<lparr>qn_id = question_id, qn_question = question_text,
                            qn_answer = answer, qn_options = opts,
                            qn_category = category, qn_difficulty = difficulty_value,
                            qn_question_type = question_type',
                            qn_correct_answers = correct_answers\<rparr>))
      | _ \<Rightarrow> Inl AttributeError)"

text \<open>The loop over a list of question objects; \<open>i\<close> is the index \<^verbatim>\<open>enumerate\<close> gives.
  With \<open>skip\<close> set, items that are not objects are passed over (the top-level list);
  without it they fail (the list under \<^verbatim>\<open>questions\<close>).\<close>

fun questions_from_items :: "bool \<Rightarrow> json list \<Rightarrow> nat \<Rightarrow> py_error + Question list" where
  "questions_from_items skip [] i = Inr []"
| "questions_from_items skip (item # rest) i =
     (if skip \<and> (case item of JObj _ \<Rightarrow> False | _ \<Rightarrow> True)
      then questions_from_items skip rest (i + 1)
      else (case create_question_from_dict item (str_nat i) of
              Inl e \<Rightarrow> Inl e
            | Inr q \<Rightarrow>
                (case questions_from_items skip rest (i + 1) of
                   Inl e \<Rightarrow> Inl e
                 | Inr qs \<Rightarrow> Inr (q # qs))))"

text \<open>
  The body of \<^verbatim>\<open>_parse_json\<close> after \<^verbatim>\<open>json.load\<close>.  \<open>str_of\<close> stands for Python's
  \<^verbatim>\<open>str\<close> on the values of a flat mapping.  Iterating over the value under
  \<^verbatim>\<open>questions\<close> yields its elements if it is a list, its characters if it is a string, its
  keys if it is an object (characters and keys are strings, which have no \<^verbatim>\<open>get\<close>), and
  fails otherwise.
\<close>

definition parse_json_data :: "(json \<Rightarrow> string) \<Rightarrow> json \<Rightarrow> py_error + Question list" where
  "parse_json_data str_of data =
     (case data of
        JArr items \<Rightarrow> questions_from_items True items 0
      | JObj kvs \<Rightarrow>
          (case map_of kvs ''questions'' of
             Some (JArr items) \<Rightarrow> questions_from_items False items 0
           | Some (JStr s) \<Rightarrow> questions_from_items False (map (\<lambda>c. JStr [c]) s) 0
           | Some (JObj kvs') \<Rightarrow> questions_from_items False (map (\<lambda>kv. JStr (fst kv)) kvs') 0
           | Some _ \<Rightarrow> Inl TypeError
           | None \<Rightarrow>
               Inr (map (\<lambda>(key, v).
                          \<lparr>qn_id = JStr key, qn_question = JStr key,
                           qn_answer = JStr (str_of v), qn_options = JNull,
                           qn_category = JStr [], qn_difficulty = JInt 1,
                           qn_question_type = JStr ''text'', qn_correct_answers = JNull\<rparr>)
                        kvs))
      | _ \<Rightarrow> Inr [])"

subsection \<open>Regular expressions\<close>

text \<open>
  The patterns of the Markdown parser, with the meaning Python's \<^verbatim>\<open>re\<close> module gives
  them under the flags \<^verbatim>\<open>MULTILINE | DOTALL\<close>: \<open>RDot\<close> is \<^verbatim>\<open>.\<close> (any character, the
  newline included), \<open>REol\<close> is \<^verbatim>\<open>$\<close> (at the end of the text or before a newline),
  \<open>REos\<close> is \<^verbatim>\<open>\Z\<close>, \<open>RStar\<close> and \<open>RLazyStar\<close> are \<^verbatim>\<open>*\<close> and \<^verbatim>\<open>*?\<close>,
  \<open>RGroup n\<close> is the \<open>n\<close>-th capturing group, \<open>RLook\<close> is \<^verbatim>\<open>(?=...)\<close>, and
  \<open>ROutside n\<close> is a literal character with code point \<open>n\<close> above 255, which no text of
  the model contains.  In a character class, \<open>Ws\<close> is \<^verbatim>\<open>\s\<close>.
\<close>

datatype cls_item = Ch char | Rng char char | Ws

datatype regex =
    REmpty
  | RStr string
  | ROutside nat
  | RDot
  | RCls "cls_item list"
  | RSeq regex regex
  | RAlt regex regex
  | RStar regex
  | RLazyStar regex
  | RGroup nat regex
  | RLook regex
  | REol
  | REos

fun in_item :: "char \<Rightarrow> cls_item \<Rightarrow> bool" where
  "in_item c (Ch d) = (c = d)"
| "in_item c (Rng a b) = ((of_char a :: nat) \<le> of_char c \<and> (of_char c :: nat) \<le> of_char b)"
| "in_item c Ws = isspace c"

definition in_class :: "cls_item list \<Rightarrow> char \<Rightarrow> bool" where
  "in_class items c = list_ex (in_item c) items"

text \<open>
  A matcher state is the text still to be read and the groups captured so far, the latest
  first.  \<open>rmatch r st\<close> lists the states in which a match of \<open>r\<close> started in \<open>st\<close> can
  end, in the order in which the backtracking matcher of \<^verbatim>\<open>re\<close> tries them: a greedy
  star tries one more repetition before it tries to stop, a lazy star the other way round,
  an alternative its left branch first.  The first state of the list is the match
  \<^verbatim>\<open>re\<close> reports.  A repetition whose body has consumed nothing is not repeated.
\<close>

type_synonym rstate = "string \<times> (nat \<times> string) list"

function rmatch :: "regex \<Rightarrow> rstate \<Rightarrow> rstate list" where
  "rmatch REmpty st = [st]"
| "rmatch (RStr w) st =
     (if take (length w) (fst st) = w then [(drop (length w) (fst st), snd st)] else [])"
| "rmatch (ROutside n) st = []"
| "rmatch RDot st = (case fst st of [] \<Rightarrow> [] | x # xs \<Rightarrow> [(xs, snd st)])"
| "rmatch (RCls items) st =
     (case fst st of [] \<Rightarrow> [] | x # xs \<Rightarrow> if in_class items x then [(xs, snd st)] else [])"
| "rmatch (RSeq r1 r2) st = concat (map (rmatch r2) (rmatch r1 st))"
| "rmatch (RAlt r1 r2) st = rmatch r1 st @ rmatch r2 st"
| "rmatch (RStar r) st =
     concat (map (\<lambda>st'. if length (fst st') < length (fst st) then rmatch (RStar r) st' else [])
                 (rmatch r st)) @ [st]"
| "rmatch (RLazyStar r) st =
     st # concat (map (\<lambda>st'. if length (fst st') < length (fst st)
                              then rmatch (RLazyStar r) st' else [])
                      (rmatch r st))"
| "rmatch (RGroup n r) st =
     map (\<lambda>st'. (fst st', (n, take (length (fst st) - length (fst st')) (fst st)) # snd st'))
         (rmatch r st)"
| "rmatch (RLook r) st = (if rmatch r st = [] then [] else [st])"
| "rmatch REol st = (case fst st of [] \<Rightarrow> [st] | x # xs \<Rightarrow> if x = CHR 0x0A then [st] else [])"
| "rmatch REos st = (if fst st = [] then [st] else [])"
  by pat_completeness auto
termination
  by (relation "measures [\<lambda>(r, st). size r, \<lambda>(r, st). length (fst st)]") auto

text \<open>\<^verbatim>\<open>r+\<close> and \<^verbatim>\<open>r+?\<close>, and sequences and alternatives of several patterns.\<close>

definition plus :: "regex \<Rightarrow> regex" where
  "plus r = RSeq r (RStar r)"

definition lazy_plus :: "regex \<Rightarrow> regex" where
  "lazy_plus r = RSeq r (RLazyStar r)"

fun seq :: "regex list \<Rightarrow> regex" where
  "seq [] = REmpty"
| "seq [r] = r"
| "seq (r # rs) = RSeq r (seq rs)"

fun alt :: "regex list \<Rightarrow> regex" where
  "alt [] = ROutside 0"
| "alt [r] = r"
| "alt (r # rs) = RAlt r (alt rs)"

text \<open>The text of group \<open>n\<close> in a match; a group that took no part is the empty text.\<close>

definition group :: "(nat \<times> string) list \<Rightarrow> nat \<Rightarrow> string" where
  "group caps n = (case map_of caps n of None \<Rightarrow> [] | Some t \<Rightarrow> t)"

text \<open>
  \<^verbatim>\<open>re.findall\<close>: the matches found from left to right, each search starting where the
  match before it ended.  Each match is given by its groups.  After a match that consumed
  nothing the search moves on by one character.
\<close>

function findall :: "regex \<Rightarrow> string \<Rightarrow> (nat \<times> string) list list" where
  "findall r s =
     (case rmatch r (s, []) of
        [] \<Rightarrow> (case s of [] \<Rightarrow> [] | x # xs \<Rightarrow> findall r xs)
      | st # _ \<Rightarrow>
          snd st # (if length (fst st) < length s then findall r (fst st)
                    else (case s of [] \<Rightarrow> [] | x # xs \<Rightarrow> findall r xs)))"
  by pat_completeness auto
termination
  by (relation "measure (\<lambda>(r, s). length s)") auto

declare findall.simps [simp del]

text \<open>\<^verbatim>\<open>re.split\<close>: the pieces of the text between the matches; \<open>piece\<close> is the piece
  being read.  A match that consumed nothing does not split (the pattern the program
  splits on has no such match).\<close>

function re_split :: "regex \<Rightarrow> string \<Rightarrow> string \<Rightarrow> string list" where
  "re_split r s piece =
     (case rmatch r (s, []) of
        [] \<Rightarrow> (case s of [] \<Rightarrow> [piece] | x # xs \<Rightarrow> re_split r xs (piece @ [x]))
      | st # _ \<Rightarrow>
          if length (fst st) < length s then piece # re_split r (fst st) []
          else (case s of [] \<Rightarrow> [piece] | x # xs \<Rightarrow> re_split r xs (piece @ [x])))"
  by pat_completeness auto
termination
  by (relation "measure (\<lambda>(r, s, piece). length s)") auto

declare re_split.simps [simp del]


subsection \<open>Markdown files\<close>

definition nl :: string where
  "nl = [CHR 0x0A]"

text \<open>The pieces the patterns are built from: \<^verbatim>\<open>\s*\<close>, the group \<^verbatim>\<open>(.+?)\<close>, and one
  option line \<^verbatim>\<open>(?:A[).\]]\s*(.+?)\n)\<close>.\<close>

definition ws_star :: regex where
  "ws_star = RStar (RCls [Ws])"

definition lazy_text :: "nat \<Rightarrow> regex" where
  "lazy_text n = RGroup n (lazy_plus RDot)"

definition option_line :: "char \<Rightarrow> nat \<Rightarrow> regex" where
  "option_line l n =
     seq [RStr [l], RCls [Ch CHR '')'', Ch CHR ''.'', Ch CHR '']''], ws_star, lazy_text n, RStr nl]"

text \<open>
  The pattern of a choice block (its second answer keyword ends in the letter U+017A):
  \<^verbatim>\<open>Q:\s*(.+?)\n(?:A[).\]]\s*(.+?)\n)(?:B[).\]]\s*(.+?)\n)(?:C[).\]]\s*(.+?)\n)(?:D[).\]]\s*(.+?)\n)(?:Answer:|Odpowied\u017a:|Poprawna:|Correct:)\s*([A-D,\s]+)(?:\n\n|\n$|$)\<close>
\<close>

definition abcd_pattern :: regex where
  "abcd_pattern =
     seq [RStr ''Q:'', ws_star, lazy_text 1, RStr nl,
          option_line CHR ''A'' 2, option_line CHR ''B'' 3,
          option_line CHR ''C'' 4, option_line CHR ''D'' 5,
          alt [RStr ''Answer:'', seq [RStr ''Odpowied'', ROutside 378, RStr '':''],
               RStr ''Poprawna:'', RStr ''Correct:''],
          ws_star,
          RGroup 6 (plus (RCls [Rng CHR ''A'' CHR ''D'', Ch CHR '','', Ws])),
          alt [RStr (nl @ nl), RSeq (RStr nl) REol, REol]]"

text \<open>
  The four patterns for text questions, in the order of the list \<^verbatim>\<open>patterns\<close>:
  \<^verbatim>\<open>Q:\s*(.+?)\nA:\s*(.+?)(?=\nQ:|\n\n|\Z)\<close>,
  \<^verbatim>\<open>##\s*(.+?)\n(.+?)(?=\n##|\n\n|\Z)\<close>,
  \<^verbatim>\<open>\*\*(.+?)\*\*\n(.+?)(?=\n\*\*|\n\n|\Z)\<close> and
  \<^verbatim>\<open>(.+\?)\n(.+?)(?=\n.+\?|\n\n|\Z)\<close>.
\<close>

definition text_patterns :: "regex list" where
  "text_patterns =
     [seq [RStr ''Q:'', ws_star, lazy_text 1, RStr nl, RStr ''A:'', ws_star, lazy_text 2,
           RLook (alt [RStr (nl @ ''Q:''), RStr (nl @ nl), REos])],
      seq [RStr ''##'', ws_star, lazy_text 1, RStr nl, lazy_text 2,
           RLook (alt [RStr (nl @ ''##''), RStr (nl @ nl), REos])],
      seq [RStr ''**'', lazy_text 1, RStr ''**'', RStr nl, lazy_text 2,
           RLook (alt [RStr (nl @ ''**''), RStr (nl @ nl), REos])],
      seq [RGroup 1 (RSeq (plus RDot) (RStr ''?'')), RStr nl, lazy_text 2,
           RLook (alt [seq [RStr nl, plus RDot, RStr ''?''], RStr (nl @ nl), REos])]]"

text \<open>A text question; the fields the program does not pass take the defaults of the
  data class.\<close>

definition text_question :: "nat \<Rightarrow> string \<Rightarrow> string \<Rightarrow> Question" where
  "text_question k question_text answer =
     \<lparr>qn_id = JStr (str_nat k), qn_question = JStr (strip question_text),
      qn_answer = JStr (strip answer), qn_options = JNull, qn_category = JStr [],
      qn_difficulty = JInt 1, qn_question_type = JStr ''text'', qn_correct_answers = JNull\<rparr>"

text \<open>\<^verbatim>\<open>[option_map[letter] for letter in correct_letters]\<close>.\<close>

fun lookup_letters :: "(string \<times> string) list \<Rightarrow> string list \<Rightarrow> py_error + string list" where
  "lookup_letters option_map [] = Inr []"
| "lookup_letters option_map (letter # rest) =
     (case map_of option_map letter of
        None \<Rightarrow> Inl KeyError
      | Some opt \<Rightarrow>
          (case lookup_letters option_map rest of
             Inl e \<Rightarrow> Inl e
           | Inr opts \<Rightarrow> Inr (opt # opts)))"

text \<open>
  The body of the loop over the matches of \<open>abcd_pattern\<close>, for one match: \<open>None\<close> where
  the program says \<^verbatim>\<open>continue\<close>, otherwise the question it appends, numbered
  \<open>question_id\<close>.
\<close>

definition abcd_question :: "(nat \<times> string) list \<Rightarrow> nat \<Rightarrow> (py_error + Question) option" where
  "abcd_question match question_id =
     (let question_text = group match 1;
          answer_letters = group match 6;
          option_map =
            map (\<lambda>(l, opt). (l, strip opt))
                (filter (\<lambda>(l, opt). opt \<noteq> [] \<and> strip opt \<noteq> [])
                        [(''A'', group match 2), (''B'', group match 3),
                         (''C'', group match 4), (''D'', group match 5)]);
          opts = map snd option_map
      in if opts = [] then None
         else
           (let answer_letters' = upper (strip answer_letters);
                correct_letters =
                  map strip
                      (filter (\<lambda>letter. strip letter \<in> set (map fst option_map))
                              (re_split (plus (RCls [Ch CHR '','', Ws])) answer_letters' []))
            in if correct_letters = [] then None
               else
                 (case lookup_letters option_map correct_letters of
                    Inl e \<Rightarrow> Some (Inl e)
                  | Inr correct_answers \<Rightarrow>
                      (let (question_type, answer) =
                             (case correct_answers of
                                [a] \<Rightarrow> (''single_choice'', a)
                              | _ \<Rightarrow> (''multiple_choice'', join '', '' correct_answers))
                       in Some (Inr \<lparr>qn_id = JStr (str_nat question_id),
                                     qn_question = JStr (strip question_text),
                                     qn_answer = JStr answer,
                                     qn_options = JArr (map JStr opts),
                                     qn_category = JStr [], qn_difficulty = JInt 1,
                                     qn_question_type = JStr question_type,
                                     qn_correct_answers = JArr (map JStr correct_answers)\<rparr>)))))"

fun abcd_questions :: "(nat \<times> string) list list \<Rightarrow> nat \<Rightarrow> py_error + Question list" where
  "abcd_questions [] question_id = Inr []"
| "abcd_questions (match # rest) question_id =
     (case abcd_question match question_id of
        None \<Rightarrow> abcd_questions rest question_id
      | Some (Inl e) \<Rightarrow> Inl e
      | Some (Inr q) \<Rightarrow>
          (case abcd_questions rest (question_id + 1) of
             Inl e \<Rightarrow> Inl e
           | Inr qs \<Rightarrow> Inr (q # qs)))"

text \<open>The loop over \<^verbatim>\<open>patterns\<close>: the first pattern with a match gives the questions,
  numbered from 0 (no question has been appended before).\<close>

fun pattern_questions :: "regex list \<Rightarrow> string \<Rightarrow> Question list" where
  "pattern_questions [] content = []"
| "pattern_questions (pattern # rest) content =
     (let matches = findall pattern content
      in if matches \<noteq> []
         then map (\<lambda>(k, m). text_question k (group m 1) (group m 2)) (enumerate 0 matches)
         else pattern_questions rest content)"

text \<open>The last resort: the lines are paired off, two at a time; \<open>k\<close> is \<^verbatim>\<open>i // 2\<close>.\<close>

fun pair_lines :: "string list \<Rightarrow> nat \<Rightarrow> Question list" where
  "pair_lines (a # b # rest) k = text_question k a b # pair_lines rest (k + 1)"
| "pair_lines _ k = []"

definition parse_markdown_content :: "string \<Rightarrow> py_error + Question list" where
  "parse_markdown_content content =
     (case abcd_questions (findall abcd_pattern content) 0 of
        Inl e \<Rightarrow> Inl e
      | Inr abcd \<Rightarrow>
          if abcd \<noteq> [] then Inr abcd
          else
            (let found = pattern_questions text_patterns content
             in if found \<noteq> [] then Inr found
                else Inr (pair_lines (split_on CHR 0x0A (strip content)) 0)))"

subsection \<open>Files\<close>

text \<open>
  The file system maps the path of a file to its text.  \<open>json_load\<close> stands for the JSON
  decoder, which fails on a text that is not JSON.  \<open>splitext_ext\<close> is the second
  component of \<^verbatim>\<open>os.path.splitext\<close>: the part of the file name from its last dot on,
  empty if there is no dot or only dots before it.
\<close>

definition splitext_ext :: "string \<Rightarrow> string" where
  "splitext_ext path =
     (let base = rev (takeWhile (\<lambda>c. c \<noteq> CHR ''/'') (rev path))
      in case dropWhile (\<lambda>c. c \<noteq> CHR ''.'') (rev base) of
           [] \<Rightarrow> []
         | dot # stem \<Rightarrow>
             if list_all (\<lambda>c. c = CHR ''.'') stem then []
             else CHR ''.'' # rev (takeWhile (\<lambda>c. c \<noteq> CHR ''.'') (rev base)))"

definition parse_json ::
  "(string \<rightharpoonup> string) \<Rightarrow> (string \<Rightarrow> py_error + json) \<Rightarrow> (json \<Rightarrow> string) \<Rightarrow> string
   \<Rightarrow> py_error + Question list" where
  "parse_json fs json_load str_of file_path =
     (case fs file_path of
        None \<Rightarrow> Inl FileNotFoundError
      | Some text \<Rightarrow>
          (case json_load text of
             Inl e \<Rightarrow> Inl e
           | Inr data \<Rightarrow> parse_json_data str_of data))"

definition parse_markdown :: "(string \<rightharpoonup> string) \<Rightarrow> string \<Rightarrow> py_error + Question list" where
  "parse_markdown fs file_path =
     (case fs file_path of
        None \<Rightarrow> Inl FileNotFoundError
      | Some content \<Rightarrow> parse_markdown_content content)"

definition parse_file ::
  "(string \<rightharpoonup> string) \<Rightarrow> (string \<Rightarrow> py_error + json) \<Rightarrow> (json \<Rightarrow> string) \<Rightarrow> string
   \<Rightarrow> py_error + Question list" where
  "parse_file fs json_load str_of file_path =
     (if fs file_path = None then Inl FileNotFoundError
      else
        (let file_extension = lower (splitext_ext file_path)
         in if file_extension = ''.json'' then parse_json fs json_load str_of file_path
            else if file_extension = ''.md'' then parse_markdown fs file_path
            else Inl ValueError))"

text \<open>Three sources with one choice block each: with all four options, with the line of
  option D missing, and with the line of option D present but blank.\<close>

definition four_option_source :: string where
  "four_option_source =
     ''Q: What?'' @ nl @ ''A) x'' @ nl @ ''B) y'' @ nl @ ''C) z'' @ nl @ ''D) w'' @ nl
     @ ''Answer: A'' @ nl"




text \<open>The top-level forms \<^verbatim>\<open>_parse_json\<close> has a branch for: a list and an object (an
  object with the key \<^verbatim>\<open>questions\<close>, or a flat mapping).\<close>

definition accepted_form :: "json \<Rightarrow> bool" where
  "accepted_form data = (case data of JArr _ \<Rightarrow> True | JObj _ \<Rightarrow> True | _ \<Rightarrow> False)"


text \<open>
  A text starts a complete choice block when it consists of some text, a newline, the four
  lines labelled A, B, C and D in this order, each label followed by one of the brackets
  \<^verbatim>\<open>)\<close>, \<^verbatim>\<open>.\<close> and \<^verbatim>\<open>]\<close> and each line ended by a newline, and a rest.
\<close>

definition starts_choice_block :: "string \<Rightarrow> bool" where
  "starts_choice_block s \<longleftrightarrow>
     (\<exists>q ba ma bb mb bc mc bd md rest.
        s = q @ nl @ [CHR ''A'', ba] @ ma @ nl @ [CHR ''B'', bb] @ mb @ nl
              @ [CHR ''C'', bc] @ mc @ nl @ [CHR ''D'', bd] @ md @ nl @ rest
        \<and> {ba, bb, bc, bd} \<subseteq> set '').]'')"


section \<open>The scheduler\<close>

subsection \<open>One transition of a review state\<close>

lemma record_answer_srs:
  "srs_stats (record_answer db now k u c rt) = srs_stats (update_srs_stats db now k c)"
  by (simp add: record_answer_def update_srs_stats_def Let_def split: option.splits)


lemma update_srs_stats_incorrect:
  assumes "srs_stats db k = Some s"
  shows "srs_stats (update_srs_stats db now k False) k =
     Some \<lparr>difficulty = difficulty s, interval_days = 1, repetitions = 0,
           next_review = Some (now + 1),
           ease_factor = max (13 / 10) (ease_factor s - 2 / 10),
           last_review = Some now\<rparr>"
  using assms by (simp add: update_srs_stats_def Let_def)


subsection \<open>Invariants of the store\<close>

lemma py_int_ge1: "1 \<le> x \<Longrightarrow> 1 \<le> py_int x"
  by (simp add: py_int_def le_floor_iff)

lemma default_row_ok: "review_state_ok (default_srs_row now)"
  by (simp add: review_state_ok_def default_srs_row_def)

lemma store_ok_init: "store_ok init_database"
  by (simp add: store_ok_def init_database_def)

lemma store_ok_add_question:
  assumes "store_ok db"
  shows "store_ok (snd (add_question db now f i t a ty os cs))"
proof -
  have le: "k \<le> Suc (questions_seq db)" if "srs_stats db k = Some s" for k s
    using assms that unfolding store_ok_def by (blast intro: le_SucI)
  have le': "q_id r \<le> Suc (questions_seq db)" if "r \<in> set (questions db)" for r
    using assms that unfolding store_ok_def by (blast intro: le_SucI)
  have ok: "review_state_ok s" if "srs_stats db k = Some s" for k s
    using assms that unfolding store_ok_def by blast
  show ?thesis
    using le le' ok default_row_ok [of now]
    by (auto simp: store_ok_def add_question_def Let_def split: option.splits if_splits)
qed

lemma step_ok:
  assumes "review_state_ok s"
  shows "review_state_ok
     \<lparr>difficulty = difficulty s,
      interval_days = (if c then (if repetitions s = 0 then 1 else if repetitions s = 1 then 6
                            else py_int (real_of_int (interval_days s) * ease_factor s)) else 1),
      repetitions = (if c then repetitions s + 1 else 0),
      next_review = nr,
      ease_factor = (if c then max (13 / 10) e1 else max (13 / 10) e2),
      last_review = lr\<rparr>"
proof -
  have "1 \<le> py_int (real_of_int (interval_days s) * ease_factor s)"
    if "repetitions s \<noteq> 0"
  proof -
    from that assms have a: "1 \<le> real_of_int (interval_days s)" and b: "1 \<le> ease_factor s"
      by (auto simp: review_state_ok_def)
    have "1 * 1 \<le> real_of_int (interval_days s) * ease_factor s"
      using a b by (intro mult_mono) auto
    then show ?thesis by (intro py_int_ge1) simp
  qed
  then show ?thesis using assms by (auto simp: review_state_ok_def)
qed

lemma store_ok_update:
  assumes "store_ok db"
  shows "store_ok (update_srs_stats db now k c)"
proof (cases "srs_stats db k")
  case None
  then show ?thesis using assms by (simp add: update_srs_stats_def)
next
  case (Some s)
  with assms have ok: "review_state_ok s" and kk: "k \<le> questions_seq db"
    by (auto simp: store_ok_def)
  show ?thesis
    using assms Some kk step_ok [OF ok, of c]
    by (auto simp: store_ok_def update_srs_stats_def Let_def)
qed

lemma store_ok_record_answer:
  assumes "store_ok db"
  shows "store_ok (record_answer db now k u c rt)"
proof -
  have "store_ok (db\<lparr>user_answers := xs\<rparr>)" for xs
    using assms by (simp add: store_ok_def)
  then show ?thesis
    unfolding record_answer_def Let_def by (rule store_ok_update)
qed

lemma store_ok_foldl:
  "store_ok db \<Longrightarrow> store_ok (foldl apply_store_op db ops)"
proof (induction ops arbitrary: db)
  case Nil
  then show ?case by simp
next
  case (Cons x xs)
  then show ?case
    by (cases x) (simp_all add: store_ok_add_question store_ok_record_answer)
qed

lemma store_ok_run: "store_ok (run_store ops)"
  unfolding run_store_def by (rule store_ok_foldl) (rule store_ok_init)

lemma add_question_fresh_row:
  assumes "store_ok db"
  shows "srs_stats (snd (add_question db now f i t a ty os cs))
           (fst (add_question db now f i t a ty os cs)) = Some (default_srs_row now)"
proof -
  have "srs_stats db (questions_seq db + 1) = None"
  proof (cases "srs_stats db (questions_seq db + 1)")
    case (Some s)
    with assms have "questions_seq db + 1 \<le> questions_seq db"
      unfolding store_ok_def by blast
    then show ?thesis by simp
  qed simp
  then show ?thesis by (simp add: add_question_def Let_def)
qed

lemma record_answer_dom:
  "srs_stats db k = Some s \<Longrightarrow> \<exists>s'. srs_stats (record_answer db now k' u c rt) k = Some s'"
  by (simp add: record_answer_def update_srs_stats_def Let_def split: option.splits)

lemma answer_all_ok:
  "store_ok db \<Longrightarrow> srs_stats db k = Some s
   \<Longrightarrow> store_ok (answer_all db k evs) \<and> (\<exists>s'. srs_stats (answer_all db k evs) k = Some s')"
proof (induction db k evs arbitrary: s rule: answer_all.induct)
  case (1 db k)
  then show ?case by simp
next
  case (2 db k now u c rt evs)
  from record_answer_dom [OF "2.prems"(2)] obtain s' where
    "srs_stats (record_answer db now k u c rt) k = Some s'" by blast
  with "2.IH" [OF store_ok_record_answer [OF "2.prems"(1)]] show ?case by simp
qed


subsection \<open>Correct answers\<close>



subsection \<open>Incorrect answers\<close>

text \<open>
  Claim C3.  Whatever the review state \<open>s\<close> of a question was, an incorrect answer sets
  the repetition count to 0, the interval to 1 day, and the ease factor to the larger of
  1.3 and the old ease factor minus 0.2.
\<close>

theorem incorrect_answer_resets:
  assumes row: "srs_stats db k = Some s"
  shows "\<exists>s'. srs_stats (record_answer db now k u False rt) k = Some s'
           \<and> repetitions s' = 0 \<and> interval_days s' = 1
           \<and> ease_factor s' = max (13 / 10) (ease_factor s - 2 / 10)"
  using update_srs_stats_incorrect [OF row, of now] by (simp add: record_answer_srs)

theorem incorrect_answer_resets_witness:
  "srs_stats example_store 1 = Some example_row
   \<and> (\<exists>s'. srs_stats (record_answer example_store 10 1 ''x'' False None) 1 = Some s'
          \<and> repetitions s' = 0 \<and> interval_days s' = 1 \<and> ease_factor s' = 12 / 5)"
  using incorrect_answer_resets [of example_store 1 example_row 10 "''x''" None]
  by (simp add: example_store_def example_row_def)

subsection \<open>The lower bound of the ease factor\<close>

text \<open>
  Claim C4.  In every store built from the empty database by registering questions and
  recording answers, every review state has an ease factor of at least 1.3.  A newly
  registered question starts with the ease factor 2.5, and after any finite sequence of
  correct and incorrect answers to it, its review state is still there with an ease factor
  of at least 1.3.
\<close>

theorem ease_factor_lower_bound:
  "(\<forall>k s. srs_stats (run_store ops) k = Some s \<longrightarrow> 13 / 10 \<le> ease_factor s)
   \<and> (\<exists>s0. srs_stats (snd (add_question (run_store ops) now f i t a ty os cs))
              (fst (add_question (run_store ops) now f i t a ty os cs)) = Some s0
          \<and> ease_factor s0 = 5 / 2)
   \<and> (\<exists>s'. srs_stats (answer_all (snd (add_question (run_store ops) now f i t a ty os cs))
                         (fst (add_question (run_store ops) now f i t a ty os cs)) evs)
              (fst (add_question (run_store ops) now f i t a ty os cs)) = Some s'
          \<and> 13 / 10 \<le> ease_factor s')"
proof (intro conjI allI impI)
  fix k s assume "srs_stats (run_store ops) k = Some s"
  with store_ok_run [of ops] show "13 / 10 \<le> ease_factor s"
    by (auto simp: store_ok_def review_state_ok_def)
next
  show "\<exists>s0. srs_stats (snd (add_question (run_store ops) now f i t a ty os cs))
              (fst (add_question (run_store ops) now f i t a ty os cs)) = Some s0
          \<and> ease_factor s0 = 5 / 2"
    using add_question_fresh_row [OF store_ok_run, of ops now f i t a ty os cs]
    by (simp add: default_srs_row_def)
next
  let ?k = "fst (add_question (run_store ops) now f i t a ty os cs)"
  let ?db = "snd (add_question (run_store ops) now f i t a ty os cs)"
  have ok: "store_ok ?db" by (rule store_ok_add_question) (rule store_ok_run)
  have row: "srs_stats ?db ?k = Some (default_srs_row now)"
    by (rule add_question_fresh_row) (rule store_ok_run)
  from answer_all_ok [OF ok row, of evs] obtain s' where
    "store_ok (answer_all ?db ?k evs)" "srs_stats (answer_all ?db ?k evs) ?k = Some s'" by blast
  then show "\<exists>s'. srs_stats (answer_all ?db ?k evs) ?k = Some s' \<and> 13 / 10 \<le> ease_factor s'"
    by (auto simp: store_ok_def review_state_ok_def)
qed

theorem ease_factor_lower_bound_witness:
  "srs_stats (run_store [AddQuestion 0 ''q.json'' ''1'' ''P'' ''A'' ''text'' None None,
                         RecordAnswer 1 1 ''x'' False None,
                         RecordAnswer 2 1 ''y'' False None]) 1
     = Some \<lparr>difficulty = 5 / 2, interval_days = 1, repetitions = 0, next_review = Some 3,
             ease_factor = 21 / 10, last_review = Some 2\<rparr>
   \<and> (13 / 10 :: real) \<le> 21 / 10"
  using ease_factor_lower_bound
    [of "[AddQuestion 0 ''q.json'' ''1'' ''P'' ''A'' ''text'' None None,
          RecordAnswer 1 1 ''x'' False None, RecordAnswer 2 1 ''y'' False None]"]
  by (simp add: run_store_def init_database_def add_question_def record_answer_def
        update_srs_stats_def default_srs_row_def truthy_def Let_def)

section \<open>Answer verification\<close>

subsection \<open>Characters and tokens\<close>

lemma of_char_lt: "(of_char c :: nat) < 256"
  by (metis of_char_mod_256 mod_less_divisor zero_less_numeral)

lemma isspace_iff: "isspace c \<longleftrightarrow> (of_char c :: nat) \<in> {9,10,11,12,13,28,29,30,31,32,133,160}"
proof -
  have "c = d \<longleftrightarrow> (of_char c :: nat) = of_char d" for d by simp
  then show ?thesis unfolding isspace_def by (simp del: of_char_eq_iff)
qed

lemma isspace_lower_char: "isspace (lower_char c) = isspace c"
  using of_char_lt [of c]
  by (auto simp: isspace_iff lower_char_def Let_def)

lemma strip_has_nonspace:
  assumes "strip s \<noteq> []"
  shows "\<exists>c \<in> set (strip s). \<not> isspace c"
proof -
  let ?ys = "dropWhile isspace (rev (dropWhile isspace s))"
  from assms have ne: "?ys \<noteq> []" by (simp add: strip_def)
  then have "\<not> isspace (hd ?ys)" by (rule hd_dropWhile)
  moreover from ne have "hd ?ys \<in> set ?ys" by simp
  ultimately show ?thesis by (auto simp: strip_def)
qed

lemma split_words_nonempty:
  "w \<noteq> [] \<or> (\<exists>c \<in> set s. \<not> isspace c) \<Longrightarrow> split_words s w \<noteq> []"
  by (induction s w rule: split_words.induct) auto

lemma tokens_nonempty:
  assumes "normalise c \<noteq> []"
  shows "0 < card (tokens c)"
proof -
  from assms have "strip c \<noteq> []" by (simp add: normalise_def lower_def)
  then obtain x where x: "x \<in> set (strip c)" "\<not> isspace x"
    using strip_has_nonspace by blast
  then have "lower_char x \<in> set (normalise c)" "\<not> isspace (lower_char x)"
    by (auto simp: normalise_def lower_def isspace_lower_char)
  then have "split_ws (normalise c) \<noteq> []"
    unfolding split_ws_def by (intro split_words_nonempty) blast
  then show ?thesis by (simp add: tokens_def card_gt_0_iff)
qed

lemma check_text_answer_eq:
  "check_text_answer u c =
     Inr (normalise u = normalise c \<or> (10 < length (normalise c) \<and> 7 / 10 \<le> coverage c u))"
proof (cases "10 < length (normalise c)")
  case False
  then show ?thesis
    by (auto simp: check_text_answer_def Let_def normalise_def)
next
  case True
  then have "normalise c \<noteq> []" by auto
  then have pos: "0 < card (tokens c)" by (rule tokens_nonempty)
  from pos have ne: "split_ws (lower (strip c)) \<noteq> []"
    by (auto simp: tokens_def normalise_def)
  show ?thesis
    using True ne
    by (simp add: check_text_answer_def Let_def truediv_def coverage_def tokens_def
          normalise_def card_gt_0_iff)
qed

lemma fox4: "check_text_answer ''the quick brown fox'' ''the quick brown fox jumps'' = Inr True"
  by code_simp

lemma fox3: "check_text_answer ''the quick brown'' ''the quick brown fox jumps'' = Inr False"
  by code_simp

lemma fox4c: "coverage ''the quick brown fox jumps'' ''the quick brown fox'' = 4 / 5"
  by code_simp
lemma fox3c: "coverage ''the quick brown fox jumps'' ''the quick brown'' = 3 / 5"
  by code_simp


subsection \<open>Free text\<close>

text \<open>
  Claim C5.  A free-text submission \<open>u\<close> is judged correct against the canonical answer
  \<open>c\<close> if and only if the normalised texts are equal, or the normalised canonical answer
  is longer than 10 characters and the coverage (the number of tokens of the canonical
  answer that occur in the submission, divided by the number of tokens of the canonical
  answer) is at least 0.70.  A canonical answer longer than 10 characters has a token, so
  the coverage is a proper quotient.  For the five tokens of "the quick brown fox jumps",
  a submission with four of them is correct and one with three of them is not.
\<close>

theorem text_answer_rule:
  "check_text_answer u c =
     Inr (normalise u = normalise c \<or> (10 < length (normalise c) \<and> 7 / 10 \<le> coverage c u))
   \<and> (10 < length (normalise c) \<longrightarrow> 0 < card (tokens c))
   \<and> coverage ''the quick brown fox jumps'' ''the quick brown fox'' = 4 / 5
   \<and> check_text_answer ''the quick brown fox'' ''the quick brown fox jumps'' = Inr True
   \<and> coverage ''the quick brown fox jumps'' ''the quick brown'' = 3 / 5
   \<and> check_text_answer ''the quick brown'' ''the quick brown fox jumps'' = Inr False"
proof -
  have "0 < card (tokens c)" if "10 < length (normalise c)"
    using that by (intro tokens_nonempty) auto
  then show ?thesis
    using check_text_answer_eq [of u c] fox4 fox3 fox4c fox3c by blast
qed

theorem text_answer_rule_witness:
  "check_text_answer ''Quick the fox  brown'' ''The quick brown fox jumps'' = Inr True
   \<and> 0 < card (tokens ''The quick brown fox jumps'')"
proof -
  have a: "10 < length (normalise ''The quick brown fox jumps'')" by code_simp
  have b: "coverage ''The quick brown fox jumps'' ''Quick the fox  brown'' = 4 / 5" by code_simp
  show ?thesis
    using text_answer_rule [of "''Quick the fox  brown''" "''The quick brown fox jumps''"] a b
    by simp
qed

subsection \<open>Multiple choice\<close>

lemma ord_single: "ord [x] = Inr (of_char x)"
  by (simp add: ord_def)

lemma collect_letters_eq:
  "collect_letters (Some xs) ls acc =
     Inr (acc @ map (\<lambda>l. normalise (xs ! nat (of_char l - 65)))
                    (filter (\<lambda>l. (65::int) \<le> of_char l \<and> of_char l - 65 < int (length xs)) ls))"
proof (induction ls arbitrary: acc)
  case Nil
  then show ?case by simp
next
  case (Cons l ls)
  show ?case
    by (simp add: ord_single len_def subscript_def Let_def Cons.IH normalise_def)
qed

lemma upper_char_letters:
  "upper_char CHR ''a'' = CHR ''A''" "upper_char CHR ''b'' = CHR ''B''"
  "upper_char CHR ''c'' = CHR ''C''" "upper_char CHR ''d'' = CHR ''D''"
  "upper_char CHR '','' = CHR '',''" "upper_char CHR '' '' = CHR '' ''"
  by code_simp+

lemma letter_offset_letters:
  "letter_offset CHR ''a'' = 0" "letter_offset CHR ''b'' = 1"
  "letter_offset CHR ''c'' = 2" "letter_offset CHR ''d'' = 3"
  by (simp_all add: letter_offset_def)

lemma letter_facts:
  assumes "c \<in> set ''abcd, ''"
  shows "upper_char c \<in> set ''ABCD'' \<longleftrightarrow> c \<in> set ''abcd''"
    and "c \<in> set ''abcd'' \<Longrightarrow> (of_char (upper_char c) :: int) - 65 = int (letter_offset c)"
proof -
  from assms consider "c = CHR ''a''" | "c = CHR ''b''" | "c = CHR ''c''" | "c = CHR ''d''"
    | "c = CHR '',''" | "c = CHR '' ''" by auto
  then show "upper_char c \<in> set ''ABCD'' \<longleftrightarrow> c \<in> set ''abcd''"
    by cases (simp_all add: upper_char_letters)
  assume "c \<in> set ''abcd''"
  then consider "c = CHR ''a''" | "c = CHR ''b''" | "c = CHR ''c''" | "c = CHR ''d''" by auto
  then show "(of_char (upper_char c) :: int) - 65 = int (letter_offset c)"
    by cases (simp_all add: upper_char_letters letter_offset_letters)
qed

lemma letter_branch_answers:
  assumes all: "\<forall>c \<in> set un. c \<in> set ''abcd, ''"
  shows "map (\<lambda>l. normalise (xs ! nat (of_char l - 65)))
           (filter (\<lambda>l. (65::int) \<le> of_char l \<and> of_char l - 65 < int (length xs))
              (map upper_char (filter (\<lambda>c. upper_char c \<in> set ''ABCD'') un)))
         = map (\<lambda>c. normalise (xs ! letter_offset c))
             (filter (\<lambda>c. c \<in> set ''abcd'' \<and> letter_offset c < length xs) un)"
  using all
proof (induction un)
  case Nil
  then show ?case by simp
next
  case (Cons c un)
  then have c: "c \<in> set ''abcd, ''" and rest: "\<forall>c \<in> set un. c \<in> set ''abcd, ''" by auto
  note IH = Cons.IH [OF rest]
  show ?case
  proof (cases "c \<in> set ''abcd''")
    case True
    with letter_facts [OF c] have u: "upper_char c \<in> set ''ABCD''"
      and off: "(of_char (upper_char c) :: int) - 65 = int (letter_offset c)" by auto
    from off have ge: "(65::int) \<le> of_char (upper_char c)" by linarith
    show ?thesis using True u off ge IH by simp
  next
    case False
    with letter_facts(1) [OF c] have "upper_char c \<notin> set ''ABCD''" by blast
    with False IH show ?thesis by simp
  qed
qed

lemma check_multiple_choice_answer_unfold:
  "check_multiple_choice_answer u cas options =
     (if letter_submission u then
        (case (if truthy options
               then collect_letters options
                      (map upper_char (filter (\<lambda>c. upper_char c \<in> set ''ABCD'') (normalise u))) []
               else Inr []) of
           Inl e \<Rightarrow> Inl e
         | Inr ua \<Rightarrow> Inr (set ua = set (map normalise cas)))
      else Inr (segment_answers u = set (map normalise cas)))"
  unfolding check_multiple_choice_answer_def letter_submission_def segment_answers_def
    normalise_def [abs_def] Let_def list_all_iff
  by (rule refl)

lemma check_multiple_choice_answer_eq:
  "check_multiple_choice_answer u cas options = Inr (multiple_choice_rule u cas (option_list options))"
proof (cases "letter_submission u")
  case False
  then show ?thesis
    by (simp only: check_multiple_choice_answer_unfold multiple_choice_rule_def if_False)
next
  case True
  then have all: "\<forall>c \<in> set (normalise u). c \<in> set ''abcd, ''"
    by (simp only: letter_submission_def)
  show ?thesis
  proof (cases "truthy options")
    case t: True
    then obtain xs where xs: "options = Some xs"
      by (auto simp: truthy_def split: option.splits)
    have ol: "option_list options = xs" by (simp add: xs option_list_def)
    have "collect_letters options
            (map upper_char (filter (\<lambda>c. upper_char c \<in> set ''ABCD'') (normalise u))) []
          = Inr (map (\<lambda>c. normalise (xs ! letter_offset c))
                   (filter (\<lambda>c. c \<in> set ''abcd'' \<and> letter_offset c < length xs) (normalise u)))"
      unfolding xs collect_letters_eq letter_branch_answers [OF all] by simp
    then show ?thesis
      by (simp only: check_multiple_choice_answer_unfold multiple_choice_rule_def True t ol
            letter_answers_def if_True sum.case)
  next
    case f: False
    then have "option_list options = []"
      by (auto simp: truthy_def option_list_def split: option.splits)
    then have "letter_answers (option_list options) u = set []"
      by (simp add: letter_answers_def)
    then show ?thesis
      by (simp only: check_multiple_choice_answer_unfold multiple_choice_rule_def True f
            if_True if_False sum.case)
  qed
qed


lemma letter_answers_cong:
  "set (normalise u) = set (normalise u') \<Longrightarrow> letter_answers os u = letter_answers os u'"
  by (simp add: letter_answers_def)

text \<open>
  Claim C6, as stated: the letter branch is taken whenever the normalised submission
  consists of the letters a to d, commas and whitespace.  The submission \<^verbatim>\<open>a<TAB>b\<close>
  refutes it: by that rule it names the options A and B and is correct for the options
  x, y with both correct, but the program does not take the letter branch (a tab is
  not a blank), compares the single segment \<^verbatim>\<open>a<TAB>b\<close> with the correct answers and
  judges it incorrect.
\<close>

theorem multiple_choice_whitespace_counterexample:
  "check_multiple_choice_answer (''a'' @ [CHR 0x09] @ ''b'') [''x'', ''y''] (Some [''x'', ''y''])
     \<noteq> Inr (multiple_choice_rule_ws (''a'' @ [CHR 0x09] @ ''b'') [''x'', ''y''] [''x'', ''y''])"
proof -
  have code: "check_multiple_choice_answer (''a'' @ [CHR 0x09] @ ''b'') [''x'', ''y'']
                (Some [''x'', ''y'']) = Inr False"
    by code_simp
  have rule: "multiple_choice_rule_ws (''a'' @ [CHR 0x09] @ ''b'') [''x'', ''y''] [''x'', ''y'']"
    by code_simp
  show ?thesis unfolding code using rule by simp
qed

text \<open>
  Claim C6, amended: if every character of the normalised submission is one of the letters
  a to d, a comma or a blank (the space character; no other whitespace), the submission is
  read as a set of letters, each letter that has an option is mapped to the normalised
  text of that option, letters without an option are dropped, and the verdict is whether
  the resulting set equals the set of normalised correct answers.  Otherwise the verdict
  is whether the set of the normalised comma-separated segments of the submission equals
  that set.  \<^verbatim>\<open>check_answer\<close> applies this rule to a multiple-choice question with at
  least one correct answer.  The comparison is one of sets: the verdict does not change
  when the correct answers, the letters or the segments are reordered or repeated.
\<close>

theorem multiple_choice_rule_holds:
  "check_multiple_choice_answer u cas options
     = Inr (multiple_choice_rule u cas (option_list options))
   \<and> (cas \<noteq> [] \<longrightarrow>
        check_answer_verdict u c ''multiple_choice'' options (Some cas)
          = Inr (multiple_choice_rule u cas (option_list options)))
   \<and> (set cas = set cas' \<longrightarrow>
        check_multiple_choice_answer u cas options = check_multiple_choice_answer u cas' options)
   \<and> (letter_submission u \<and> letter_submission u' \<and> set (normalise u) = set (normalise u') \<longrightarrow>
        check_multiple_choice_answer u cas options = check_multiple_choice_answer u' cas options)
   \<and> (\<not> letter_submission u \<and> \<not> letter_submission u' \<and> segment_answers u = segment_answers u' \<longrightarrow>
        check_multiple_choice_answer u cas options = check_multiple_choice_answer u' cas options)"
proof (intro conjI impI)
  show "check_multiple_choice_answer u cas options
          = Inr (multiple_choice_rule u cas (option_list options))"
    by (rule check_multiple_choice_answer_eq)
next
  assume "cas \<noteq> []"
  then show "check_answer_verdict u c ''multiple_choice'' options (Some cas)
          = Inr (multiple_choice_rule u cas (option_list options))"
    by (simp add: check_answer_verdict_def truthy_def check_multiple_choice_answer_eq)
next
  assume "set cas = set cas'"
  then show "check_multiple_choice_answer u cas options
               = check_multiple_choice_answer u cas' options"
    by (simp add: check_multiple_choice_answer_eq multiple_choice_rule_def)
next
  assume "letter_submission u \<and> letter_submission u' \<and> set (normalise u) = set (normalise u')"
  then show "check_multiple_choice_answer u cas options
               = check_multiple_choice_answer u' cas options"
    using letter_answers_cong [of u u' "option_list options"]
    by (simp add: check_multiple_choice_answer_eq multiple_choice_rule_def)
next
  assume "\<not> letter_submission u \<and> \<not> letter_submission u'
          \<and> segment_answers u = segment_answers u'"
  then show "check_multiple_choice_answer u cas options
               = check_multiple_choice_answer u' cas options"
    by (simp add: check_multiple_choice_answer_eq multiple_choice_rule_def)
qed

theorem multiple_choice_rule_holds_witness:
  "check_answer_verdict ''a,c,b'' ''int, string, boolean'' ''multiple_choice''
     (Some [''int'', ''string'', ''boolean'', ''array'']) (Some [''int'', ''string'', ''boolean''])
     = Inr True
   \<and> check_multiple_choice_answer ''a,c,b'' [''int'', ''string'', ''boolean'']
        (Some [''int'', ''string'', ''boolean'', ''array''])
     = check_multiple_choice_answer ''a,c,b'' [''boolean'', ''int'', ''string'', ''int'']
        (Some [''int'', ''string'', ''boolean'', ''array''])
   \<and> check_multiple_choice_answer ''a,c,b'' [''int'', ''string'', ''boolean'']
        (Some [''int'', ''string'', ''boolean'', ''array''])
     = check_multiple_choice_answer ''B,A,C,A'' [''int'', ''string'', ''boolean'']
        (Some [''int'', ''string'', ''boolean'', ''array''])"
proof -
  let ?os = "Some [''int'', ''string'', ''boolean'', ''array'']"
  let ?cas = "[''int'', ''string'', ''boolean'']"
  note rule = multiple_choice_rule_holds [of "''a,c,b''" ?cas ?os
        "''int, string, boolean''" "[''boolean'', ''int'', ''string'', ''int'']" "''B,A,C,A''"]
  have r: "multiple_choice_rule ''a,c,b'' ?cas (option_list ?os)"
    by code_simp
  have s: "set ?cas = set [''boolean'', ''int'', ''string'', ''int'']"
    by auto
  have l: "letter_submission ''a,c,b'' \<and> letter_submission ''B,A,C,A''
           \<and> set (normalise ''a,c,b'') = set (normalise ''B,A,C,A'')"
    by code_simp
  have ne: "?cas \<noteq> []" by simp
  from rule ne have "check_answer_verdict ''a,c,b'' ''int, string, boolean'' ''multiple_choice''
      ?os (Some ?cas) = Inr (multiple_choice_rule ''a,c,b'' ?cas (option_list ?os))"
    by blast
  with r have 1: "check_answer_verdict ''a,c,b'' ''int, string, boolean'' ''multiple_choice''
      ?os (Some ?cas) = Inr True"
    by (simp only: simp_thms)
  from rule s have 2: "check_multiple_choice_answer ''a,c,b'' ?cas ?os
     = check_multiple_choice_answer ''a,c,b'' [''boolean'', ''int'', ''string'', ''int''] ?os"
    by blast
  from rule l have 3: "check_multiple_choice_answer ''a,c,b'' ?cas ?os
     = check_multiple_choice_answer ''B,A,C,A'' ?cas ?os"
    by blast
  from 1 2 3 show ?thesis by blast
qed

subsection \<open>Verification never fails\<close>







section \<open>Registration and selection\<close>

subsection \<open>Registering a question again\<close>

lemma learned_store_eq:
  "learned_store =
     \<lparr>questions = [\<lparr>q_id = 1, q_quiz_file = ''quiz.json'', q_question_id = ''q1'',
                     q_question_text = ''2 + 2?'', q_correct_answer = ''4'',
                     q_question_type = ''text'', q_options = None, q_correct_answers = None\<rparr>],
      questions_seq = 1,
      user_answers = [\<lparr>ua_id = 1, ua_question_id = 1, ua_user_answer = ''4'',
                        ua_is_correct = True, ua_timestamp = 0, ua_response_time = None\<rparr>],
      srs_stats = [1 \<mapsto> \<lparr>difficulty = 5 / 2, interval_days = 1, repetitions = 1,
                            next_review = Some 1, ease_factor = 511 / 200,
                            last_review = Some 0\<rparr>]\<rparr>"
  by (simp add: learned_store_def run_store_def init_database_def add_question_def
        record_answer_def update_srs_stats_def default_srs_row_def truthy_def Let_def)

lemma add_question_changes_id:
  assumes ok: "store_ok db" and old: "get_question_db_id db f i = Some k"
  shows "fst (add_question db now f i t a ty os cs) \<noteq> k"
    and "get_question_db_id (snd (add_question db now f i t a ty os cs)) f i
           = Some (fst (add_question db now f i t a ty os cs))"
    and "srs_stats (snd (add_question db now f i t a ty os cs))
           (fst (add_question db now f i t a ty os cs)) = Some (default_srs_row now)"
proof -
  from old obtain r rs where
    f: "filter (\<lambda>r. q_quiz_file r = f \<and> q_question_id r = i) (questions db) = r # rs"
    and k: "q_id r = k"
    unfolding get_question_db_id_def by (auto split: list.splits)
  from f have "r \<in> set (filter (\<lambda>r. q_quiz_file r = f \<and> q_question_id r = i) (questions db))"
    by simp
  then have r: "r \<in> set (questions db)" by simp
  note r = r k
  with ok have "k \<le> questions_seq db" unfolding store_ok_def by blast
  then show "fst (add_question db now f i t a ty os cs) \<noteq> k"
    by (simp add: add_question_def Let_def)
  show "get_question_db_id (snd (add_question db now f i t a ty os cs)) f i
           = Some (fst (add_question db now f i t a ty os cs))"
    by (simp add: add_question_def get_question_db_id_def Let_def filter_empty_conv)
  show "srs_stats (snd (add_question db now f i t a ty os cs))
           (fst (add_question db now f i t a ty os cs)) = Some (default_srs_row now)"
    using ok by (rule add_question_fresh_row)
qed

text \<open>
  Claim C1.  Registering a question identity that is already registered should return the
  same key and leave its review state alone.  The store does neither: the row is replaced
  under a fresh key, and the review state found under that key is a new default one.  In
  the store \<open>learned_store\<close> the question \<^verbatim>\<open>(quiz.json, q1)\<close> has key 1 and has been
  answered correctly once (repetition count 1); registering it again at time 5 returns
  key 2, the identity now resolves to key 2, and the review state at key 2 is the default
  one with repetition count 0.  By \<open>add_question_changes_id\<close> this happens at every
  re-registration in every reachable store.
\<close>

theorem reregistration_resets_review_state:
  "get_question_db_id learned_store ''quiz.json'' ''q1'' = Some 1
   \<and> map_option repetitions (srs_stats learned_store 1) = Some 1
   \<and> fst (add_question learned_store 5 ''quiz.json'' ''q1'' ''2 + 2 = ?'' ''4'' ''text'' None None) = 2
   \<and> get_question_db_id
         (snd (add_question learned_store 5 ''quiz.json'' ''q1'' ''2 + 2 = ?'' ''4'' ''text'' None None))
         ''quiz.json'' ''q1'' = Some 2
   \<and> srs_stats
         (snd (add_question learned_store 5 ''quiz.json'' ''q1'' ''2 + 2 = ?'' ''4'' ''text'' None None))
         2 = Some (default_srs_row 5)
   \<and> repetitions (default_srs_row 5) = 0"
  by (simp add: learned_store_eq add_question_def get_question_db_id_def default_srs_row_def
        truthy_def Let_def)


subsection \<open>Random selection when nothing is due\<close>

lemma no_due_question_random_none:
  assumes "get_questions_for_review (mgr_db m) now (current_quiz_file m) 100 = []"
  shows "get_next_question m now ''random'' rnd = None"
  using assms by (simp add: get_next_question_def Let_def)


text \<open>
  Claim C9.  In random mode, when questions are registered and none is due, one of the
  registered questions should still be returned.  The program returns none: random mode
  draws from the due questions only.  In \<open>learned_manager\<close> one question is registered
  and is due at time 1; at time 1/2 the review query is empty and random mode yields
  \<^verbatim>\<open>None\<close>.
\<close>

theorem random_mode_no_fallback:
  "length (questions (mgr_db learned_manager)) = 1
   \<and> get_questions_for_review (mgr_db learned_manager) (1 / 2) (current_quiz_file learned_manager) 100 = []
   \<and> get_next_question learned_manager (1 / 2) ''random'' 0 = None"
  by (simp add: learned_manager_def learned_store_eq get_next_question_def
        get_questions_for_review_def is_due_def order_reviews_def Let_def)


section \<open>Parsing\<close>

subsection \<open>Structured sources of an unknown shape\<close>

lemma json_extension: "lower (splitext_ext ''quiz.json'') = ''.json''"
  by code_simp

lemma json_extension_upper: "lower (splitext_ext ''data/Quiz.JSON'') = ''.json''"
  by code_simp

text \<open>
  Claim C8, as stated: a structured source whose top-level value is none of the accepted
  forms makes parsing fail.  It does not: the file \<^verbatim>\<open>quiz.json\<close> holding the number 42
  parses to the empty list of questions.
\<close>

theorem scalar_json_counterexample:
  "parse_file [''quiz.json'' \<mapsto> ''42''] (\<lambda>text. Inr (JInt 42)) (\<lambda>v. []) ''quiz.json'' = Inr []"
  by (simp add: parse_file_def parse_json_def parse_json_data_def json_extension)

text \<open>
  Claim C8, amended: for every structured source that can be read and decoded and whose
  top-level value is neither a list nor an object (a string, a number, a boolean or
  null), parsing does not fail; it returns the empty sequence of questions.
\<close>

theorem unaccepted_json_parses_to_nothing:
  assumes "fs file_path = Some text"
    and "lower (splitext_ext file_path) = ''.json''"
    and "json_load text = Inr data"
    and "\<not> accepted_form data"
  shows "parse_json_data str_of data = Inr []
         \<and> parse_file fs json_load str_of file_path = Inr []"
proof -
  from assms(4) have "parse_json_data str_of data = Inr []"
    by (cases data) (simp_all add: parse_json_data_def accepted_form_def)
  with assms(1-3) show ?thesis
    by (simp add: parse_file_def parse_json_def)
qed

theorem unaccepted_json_parses_to_nothing_witness:
  "\<not> accepted_form JNull
   \<and> parse_file [''data/Quiz.JSON'' \<mapsto> ''null''] (\<lambda>text. Inr JNull) (\<lambda>v. [])
        ''data/Quiz.JSON'' = Inr []"
  using unaccepted_json_parses_to_nothing
    [of "[''data/Quiz.JSON'' \<mapsto> ''null'']" "''data/Quiz.JSON''" "''null''"
        "\<lambda>text. Inr JNull" JNull "\<lambda>v. []"]
  by (simp add: json_extension_upper accepted_form_def)

subsection \<open>A choice block with three option lines\<close>

text \<open>
  What a match of a pattern consumes is a prefix of the text it started in.  A match of
  \<open>abcd_pattern\<close> therefore starts at a complete choice block, and every question with
  options that the Markdown parser emits comes from a text that contains such a block: a
  block from which a labelled option line is missing never gives a choice question.
\<close>

lemma rmatch_suffix:
  "st' \<in> set (rmatch r st) \<Longrightarrow> \<exists>w. fst st = w @ fst st'"
proof (induction r st arbitrary: st' rule: rmatch.induct)
  case (2 w st)
  then have "fst st' = drop (length w) (fst st)" by (auto split: if_splits)
  then have "fst st = take (length w) (fst st) @ fst st'" by simp
  then show ?case by blast
next
  case (4 st)
  show ?case
  proof (cases "fst st")
    case Nil
    with "4.prems" show ?thesis by simp
  next
    case (Cons x xs)
    from "4.prems" have "st' = (xs, snd st)" unfolding rmatch.simps Cons by simp
    with Cons have "fst st = [x] @ fst st'" by simp
    then show ?thesis by blast
  qed
next
  case (5 items st)
  show ?case
  proof (cases "fst st")
    case Nil
    with "5.prems" show ?thesis by simp
  next
    case (Cons x xs)
    from "5.prems" have "st' = (xs, snd st)"
      unfolding rmatch.simps Cons by (simp split: if_splits)
    with Cons have "fst st = [x] @ fst st'" by simp
    then show ?thesis by blast
  qed
next
  case (6 r1 r2 st)
  from "6.prems" obtain st1 where a: "st1 \<in> set (rmatch r1 st)" and b: "st' \<in> set (rmatch r2 st1)"
    by auto
  from "6.IH"(1) [OF a] obtain w1 where "fst st = w1 @ fst st1" by blast
  moreover from "6.IH"(2) [OF a b] obtain w2 where "fst st1 = w2 @ fst st'" by blast
  ultimately have "fst st = (w1 @ w2) @ fst st'" by simp
  then show ?case by blast
next
  case (8 r st)
  have eq: "rmatch (RStar r) st = concat (map (\<lambda>st'. if length (fst st') < length (fst st)
                                 then rmatch (RStar r) st' else []) (rmatch r st)) @ [st]" by (rule rmatch.simps)
  from "8.prems" [unfolded eq] consider "st' = st"
    | st1 where "st1 \<in> set (rmatch r st)" "length (fst st1) < length (fst st)"
        "st' \<in> set (rmatch (RStar r) st1)"
    by (auto simp del: rmatch.simps split: if_splits)
  then show ?case
  proof cases
    case 1
    then show ?thesis by simp
  next
    case 2
    from "8.IH"(1) [OF 2(1)] obtain w1 where "fst st = w1 @ fst st1" by blast
    moreover from "8.IH"(2) [OF 2(1) 2(2) 2(3)] obtain w2 where "fst st1 = w2 @ fst st'" by blast
    ultimately have "fst st = (w1 @ w2) @ fst st'" by simp
    then show ?thesis by blast
  qed
next
  case (9 r st)
  have eq: "rmatch (RLazyStar r) st = st # concat (map (\<lambda>st'. if length (fst st') < length (fst st)
                                 then rmatch (RLazyStar r) st' else []) (rmatch r st))" by (rule rmatch.simps)
  from "9.prems" [unfolded eq] consider "st' = st"
    | st1 where "st1 \<in> set (rmatch r st)" "length (fst st1) < length (fst st)"
        "st' \<in> set (rmatch (RLazyStar r) st1)"
    by (auto simp del: rmatch.simps split: if_splits)
  then show ?case
  proof cases
    case 1
    then show ?thesis by simp
  next
    case 2
    from "9.IH"(1) [OF 2(1)] obtain w1 where "fst st = w1 @ fst st1" by blast
    moreover from "9.IH"(2) [OF 2(1) 2(2) 2(3)] obtain w2 where "fst st1 = w2 @ fst st'" by blast
    ultimately have "fst st = (w1 @ w2) @ fst st'" by simp
    then show ?thesis by blast
  qed
next
  case (10 n r st)
  then show ?case by auto
next
  case (11 r st)
  then show ?case by (auto split: if_splits)
next
  case (12 st)
  then have "st' = st" by (simp split: list.splits if_splits)
  then show ?case by simp
qed (auto split: if_splits)



lemma rmatch_seq:
  "st'' \<in> set (rmatch (RSeq r1 r2) st)
   \<Longrightarrow> \<exists>st' \<in> set (rmatch r1 st). st'' \<in> set (rmatch r2 st')"
  by auto

lemma rmatch_str: "st' \<in> set (rmatch (RStr w) st) \<Longrightarrow> fst st = w @ fst st'"
proof -
  assume "st' \<in> set (rmatch (RStr w) st)"
  then have "take (length w) (fst st) = w" "fst st' = drop (length w) (fst st)"
    by (auto split: if_splits)
  then show ?thesis by (metis append_take_drop_id)
qed

lemma rmatch_cls:
  assumes "st' \<in> set (rmatch (RCls items) st)"
  shows "\<exists>x. fst st = x # fst st' \<and> in_class items x"
proof (cases "fst st")
  case Nil
  with assms show ?thesis by simp
next
  case (Cons x xs)
  with assms have "in_class items x" "fst st' = xs" by (auto split: if_splits)
  with Cons show ?thesis by simp
qed

lemma option_line_match:
  assumes "st' \<in> set (rmatch (option_line l n) st)"
  shows "\<exists>b mid. fst st = [l, b] @ mid @ nl @ fst st' \<and> b \<in> set '').]''"
proof -
  from assms obtain s1 s2 s3 s4 where
    1: "s1 \<in> set (rmatch (RStr [l]) st)"
    and 2: "s2 \<in> set (rmatch (RCls [Ch CHR '')'', Ch CHR ''.'', Ch CHR '']'']) s1)"
    and 3: "s3 \<in> set (rmatch ws_star s2)"
    and 4: "s4 \<in> set (rmatch (lazy_text n) s3)"
    and 5: "st' \<in> set (rmatch (RStr nl) s4)"
    unfolding option_line_def seq.simps by (blast dest!: rmatch_seq)
  from rmatch_str [OF 1] have a: "fst st = [l] @ fst s1" .
  from rmatch_cls [OF 2] obtain b where b: "fst s1 = b # fst s2"
    and bc: "in_class [Ch CHR '')'', Ch CHR ''.'', Ch CHR '']''] b" by blast
  from rmatch_suffix [OF 3] obtain w1 where c: "fst s2 = w1 @ fst s3" by blast
  from rmatch_suffix [OF 4] obtain w2 where d: "fst s3 = w2 @ fst s4" by blast
  from rmatch_str [OF 5] have e: "fst s4 = nl @ fst st'" .
  from bc have "b \<in> set '').]''" by (auto simp: in_class_def)
  moreover from a b c d e have "fst st = [l, b] @ (w1 @ w2) @ nl @ fst st'" by simp
  ultimately show ?thesis by blast
qed

lemma abcd_pattern_match:
  assumes "st' \<in> set (rmatch abcd_pattern st)"
  shows "starts_choice_block (fst st)"
proof -
  from assms obtain s1 s2 s3 s4 s5 s6 s7 s8 where
    1: "s1 \<in> set (rmatch (RStr ''Q:'') st)"
    and 2: "s2 \<in> set (rmatch ws_star s1)"
    and 3: "s3 \<in> set (rmatch (lazy_text 1) s2)"
    and 4: "s4 \<in> set (rmatch (RStr nl) s3)"
    and 5: "s5 \<in> set (rmatch (option_line CHR ''A'' 2) s4)"
    and 6: "s6 \<in> set (rmatch (option_line CHR ''B'' 3) s5)"
    and 7: "s7 \<in> set (rmatch (option_line CHR ''C'' 4) s6)"
    and 8: "s8 \<in> set (rmatch (option_line CHR ''D'' 5) s7)"
    unfolding abcd_pattern_def seq.simps by (blast dest!: rmatch_seq)
  from rmatch_suffix [OF 1] obtain w1 where a: "fst st = w1 @ fst s1" by blast
  from rmatch_suffix [OF 2] obtain w2 where b: "fst s1 = w2 @ fst s2" by blast
  from rmatch_suffix [OF 3] obtain w3 where c: "fst s2 = w3 @ fst s3" by blast
  from rmatch_str [OF 4] have d: "fst s3 = nl @ fst s4" .
  from option_line_match [OF 5] obtain ba ma where
    e: "fst s4 = [CHR ''A'', ba] @ ma @ nl @ fst s5" "ba \<in> set '').]''" by blast
  from option_line_match [OF 6] obtain bb mb where
    f: "fst s5 = [CHR ''B'', bb] @ mb @ nl @ fst s6" "bb \<in> set '').]''" by blast
  from option_line_match [OF 7] obtain bc mc where
    g: "fst s6 = [CHR ''C'', bc] @ mc @ nl @ fst s7" "bc \<in> set '').]''" by blast
  from option_line_match [OF 8] obtain bd md where
    h: "fst s7 = [CHR ''D'', bd] @ md @ nl @ fst s8" "bd \<in> set '').]''" by blast
  have "fst st = (w1 @ w2 @ w3) @ nl @ [CHR ''A'', ba] @ ma @ nl @ [CHR ''B'', bb] @ mb @ nl
                      @ [CHR ''C'', bc] @ mc @ nl @ [CHR ''D'', bd] @ md @ nl @ fst s8"
    unfolding a b c d e(1) f(1) g(1) h(1) by simp
  moreover have "{ba, bb, bc, bd} \<subseteq> set '').]''"
    using e(2) f(2) g(2) h(2) by blast
  ultimately show ?thesis unfolding starts_choice_block_def by blast
qed

lemma findall_match:
  "findall r s \<noteq> [] \<Longrightarrow> \<exists>pre suf. s = pre @ suf \<and> rmatch r (suf, []) \<noteq> []"
proof (induction r s rule: findall.induct)
  case (1 r s)
  show ?case
  proof (cases "rmatch r (s, [])")
    case Nil
    with "1.prems" obtain x xs where s: "s = x # xs" and ne: "findall r xs \<noteq> []"
      by (subst (asm) findall.simps) (auto split: list.splits)
    from "1.IH"(1) [OF Nil s ne] obtain pre suf where "xs = pre @ suf" "rmatch r (suf, []) \<noteq> []"
      by blast
    with s have "s = (x # pre) @ suf" by simp
    with \<open>rmatch r (suf, []) \<noteq> []\<close> show ?thesis by blast
  next
    case (Cons st sts)
    then have "s = [] @ s \<and> rmatch r (s, []) \<noteq> []" by simp
    then show ?thesis by blast
  qed
qed

lemma text_question_no_options: "qn_options (text_question k a b) = JNull"
  by (simp add: text_question_def)

lemma pattern_questions_no_options:
  "q \<in> set (pattern_questions ps content) \<Longrightarrow> qn_options q = JNull"
  by (induction ps content rule: pattern_questions.induct)
    (auto simp: Let_def text_question_no_options split: if_splits)

lemma pair_lines_no_options:
  "q \<in> set (pair_lines ls k) \<Longrightarrow> qn_options q = JNull"
  by (induction ls k rule: pair_lines.induct) (auto simp: text_question_no_options)

lemma abcd_questions_nonempty:
  "abcd_questions ms k = Inr qs \<Longrightarrow> qs \<noteq> [] \<Longrightarrow> ms \<noteq> []"
  by (cases ms) auto

lemma choice_question_needs_four_labelled_lines:
  assumes p: "parse_markdown_content content = Inr qs" and q: "q \<in> set qs"
    and o: "qn_options q \<noteq> JNull"
  shows "\<exists>pre suf. content = pre @ suf \<and> starts_choice_block suf"
proof -
  have "findall abcd_pattern content \<noteq> []"
  proof (cases "abcd_questions (findall abcd_pattern content) 0")
    case (Inl e)
    with p show ?thesis by (simp add: parse_markdown_content_def)
  next
    case (Inr abcd)
    show ?thesis
    proof (cases "abcd = []")
      case False
      with Inr show ?thesis by (rule abcd_questions_nonempty)
    next
      case True
      with p Inr have "qs = pattern_questions text_patterns content
                       \<or> qs = pair_lines (split_on CHR 0x0A (strip content)) 0"
        by (auto simp: parse_markdown_content_def Let_def split: if_splits)
      with q have "qn_options q = JNull"
        using pattern_questions_no_options pair_lines_no_options by blast
      with o show ?thesis by simp
    qed
  qed
  then obtain pre suf where c: "content = pre @ suf" and m: "rmatch abcd_pattern (suf, []) \<noteq> []"
    using findall_match by blast
  from m obtain st' where "st' \<in> set (rmatch abcd_pattern (suf, []))"
    by (cases "rmatch abcd_pattern (suf, [])") auto
  from abcd_pattern_match [OF this] have "starts_choice_block suf" by simp
  with c show ?thesis by blast
qed



end
